theory Spec2Isabelle
  imports Complex_Main "HOL-Library.Multiset"
begin

section \<open>Python primitives used by the timestamp code\<close>

text \<open>
  Times are Python floats in the source. They are modelled by exact rationals: every
  float is a rational, and the arithmetic of the source (\<open>+\<close>, \<open>-\<close>, \<open>*\<close>, \<open>/\<close>,
  \<open>min\<close>, \<open>max\<close>, \<open>round(x, 3)\<close>, \<open>int(x)\<close>) is modelled by its exact
  counterpart, without the rounding error of binary floating point. Strings are lists of
  8-bit characters, read as the code points below 256.
\<close>

definition isspace :: "char \<Rightarrow> bool" where
  \<comment> \<open>\<open>str.isspace\<close> on the code points below 256: tab, line feed, vertical tab, form feed,
      carriage return, the separators 28 to 31, space, next line (133) and no-break space (160).\<close>
  "isspace c = (of_char c \<in> {9, 10, 11, 12, 13, 28, 29, 30, 31, 32, 133, 160 :: nat})"

definition strip :: "string \<Rightarrow> string" where
  \<comment> \<open>\<open>s.strip()\<close>: leading and trailing whitespace removed.\<close>
  "strip s = rev (dropWhile isspace (rev (dropWhile isspace s)))"

fun split_loop :: "string \<Rightarrow> string \<Rightarrow> string list" where
  "split_loop cur [] = (if cur = [] then [] else [cur])"
| "split_loop cur (c # cs) =
     (if isspace c then (if cur = [] then split_loop [] cs else cur # split_loop [] cs)
      else split_loop (cur @ [c]) cs)"

definition split_ws :: "string \<Rightarrow> string list" where
  \<comment> \<open>\<open>s.split()\<close> with no argument: the maximal runs of non-whitespace characters.\<close>
  "split_ws s = split_loop [] s"

fun join :: "string \<Rightarrow> string list \<Rightarrow> string" where
  \<comment> \<open>\<open>sep.join(ws)\<close>\<close>
  "join sep [] = []"
| "join sep [w] = w"
| "join sep (w # v # ws) = w @ sep @ join sep (v # ws)"

definition round_half_even :: "rat \<Rightarrow> int" where
  "round_half_even y =
     (let f = \<lfloor>y\<rfloor>; r = y - of_int f
      in if r < 1 / 2 then f else if 1 / 2 < r then f + 1 else if even f then f else f + 1)"

definition round3 :: "rat \<Rightarrow> rat" where
  \<comment> \<open>\<open>round(x, 3)\<close>: the nearest multiple of 0.001, ties to the even one.\<close>
  "round3 x = of_int (round_half_even (x * 1000)) / 1000"

definition py_int :: "rat \<Rightarrow> int" where
  \<comment> \<open>\<open>int(x)\<close> of a float: truncation towards zero.\<close>
  "py_int x = (if 0 \<le> x then \<lfloor>x\<rfloor> else \<lceil>x\<rceil>)"

section \<open>Word timestamps\<close>

text \<open>
  A word timestamp is a Python dict with the keys \<open>'word'\<close>, \<open>'start'\<close> and \<open>'end'\<close>.
  A key may be missing: \<open>d.get(k, default)\<close> then yields the default and \<open>d[k]\<close> raises
  \<open>KeyError\<close>. The record has one optional field per key (\<open>end\<close> is a keyword of
  Isabelle, so the fields carry the prefix \<open>d_\<close>).
\<close>

record word_data =
  d_word :: "string option"
  d_start :: "rat option"
  d_end :: "rat option"

definition get :: "'a option \<Rightarrow> 'a \<Rightarrow> 'a" where
  \<comment> \<open>\<open>d.get(key, default)\<close>\<close>
  "get v dflt = (case v of None \<Rightarrow> dflt | Some x \<Rightarrow> x)"

definition timed :: "string \<Rightarrow> rat \<Rightarrow> rat \<Rightarrow> word_data" where
  \<comment> \<open>the dict literal \<open>{'word': w, 'start': s, 'end': e}\<close>\<close>
  "timed w s e = \<lparr>d_word = Some w, d_start = Some s, d_end = Some e\<rparr>"

subsection \<open>\<open>AudioProcessor.get_word_timestamps\<close>\<close>

definition word_timing :: "rat \<Rightarrow> nat \<Rightarrow> nat \<Rightarrow> string \<Rightarrow> word_data" where
  \<comment> \<open>the body of the loop \<open>for i, word in enumerate(words)\<close>\<close>
  "word_timing audio_duration total_words i w =
     (let start_offset = 1 / 2;
          end_offset = 1 / 2;
          usable_duration = audio_duration - start_offset - end_offset;
          (start_time, end_time) =
            (if total_words = 1 then (start_offset, audio_duration - end_offset)
             else let word_duration = usable_duration / of_nat total_words
                  in (start_offset + of_nat i * word_duration,
                      start_offset + (of_nat i + 1) * word_duration));
          start_time = (if 0 < i then start_time + 1 / 20 else start_time)
      in timed (strip w) (round3 start_time) (round3 end_time))"

fun allocate_loop :: "rat \<Rightarrow> nat \<Rightarrow> nat \<Rightarrow> string list \<Rightarrow> word_data list" where
  "allocate_loop audio_duration total_words i [] = []"
| "allocate_loop audio_duration total_words i (w # ws) =
     word_timing audio_duration total_words i w
       # allocate_loop audio_duration total_words (Suc i) ws"

definition allocate :: "string list \<Rightarrow> rat \<Rightarrow> word_data list" where
  \<comment> \<open>lines 119 to 151: the word timestamps of a word list and a duration\<close>
  "allocate words audio_duration = allocate_loop audio_duration (length words) 0 words"

definition get_word_timestamps :: "bool \<Rightarrow> string option \<Rightarrow> rat \<Rightarrow> word_data list" where
  \<comment> \<open>The results of the external calls are parameters: whether the file exists, what
      \<open>transcribe_audio\<close> returned and what \<open>get_audio_duration\<close> returned. A missing file
      raises inside the \<open>try\<close>, whose handler returns the empty list.\<close>
  "get_word_timestamps file_exists transcription audio_duration =
     (if \<not> file_exists then []
      else case transcription of
        None \<Rightarrow> []
      | Some t \<Rightarrow>
          if t = [] then []
          else if audio_duration \<le> 0 then []
          else let words = split_ws t
               in if words = [] then [] else allocate words audio_duration)"

subsection \<open>\<open>AudioProcessor.validate_timestamps\<close>\<close>


text \<open>Names for the values of one pass of the loop, and for what a dict holds.\<close>

definition word_of :: "word_data \<Rightarrow> string" where
  \<comment> \<open>\<open>word_data.get('word', '')\<close>\<close>
  "word_of wd = get (d_word wd) []"

definition start_of :: "word_data \<Rightarrow> rat" where
  \<comment> \<open>\<open>word_data.get('start', 0)\<close>\<close>
  "start_of wd = get (d_start wd) 0"

definition end_of :: "word_data \<Rightarrow> rat" where
  \<comment> \<open>the value under \<open>'end'\<close> of a dict that has the key\<close>
  "end_of wd = get (d_end wd) 0"

definition has_all_keys :: "word_data \<Rightarrow> bool" where
  "has_all_keys wd = (d_word wd \<noteq> None \<and> d_start wd \<noteq> None \<and> d_end wd \<noteq> None)"




subsection \<open>\<open>MP3Embedder._create_sylt_data\<close>\<close>

fun create_sylt_data :: "word_data list \<Rightarrow> (string \<times> int) list" where
  \<comment> \<open>The \<open>try\<close> of the source guards against values of the wrong type only; with typed
      fields no statement of the loop raises.\<close>
  "create_sylt_data [] = []"
| "create_sylt_data (wd # rest) =
     (let w = strip (get (d_word wd) []);
          start_time = get (d_start wd) 0
      in if w \<noteq> [] then (w, py_int (start_time * 1000)) # create_sylt_data rest
         else create_sylt_data rest)"

subsection \<open>\<open>utils.merge_overlapping_timestamps\<close>\<close>

datatype py_error = KeyError string | IndexError

definition getitem :: "'a option \<Rightarrow> string \<Rightarrow> py_error + 'a" where
  \<comment> \<open>\<open>d[key]\<close>\<close>
  "getitem v key = (case v of None \<Rightarrow> Inl (KeyError key) | Some x \<Rightarrow> Inr x)"

fun words_of :: "word_data list \<Rightarrow> py_error + string list" where
  \<comment> \<open>\<open>[w['word'] for w in current_group]\<close>\<close>
  "words_of [] = Inr []"
| "words_of (w # ws) =
     (case getitem (d_word w) ''word'' of
        Inl e \<Rightarrow> Inl e
      | Inr x \<Rightarrow> (case words_of ws of Inl e \<Rightarrow> Inl e | Inr xs \<Rightarrow> Inr (x # xs)))"

definition merge_group :: "word_data list \<Rightarrow> py_error + word_data" where
  \<comment> \<open>The entry appended for a group: the group's only member as it is, or the merged
      dict, whose values are evaluated in the order word, start, end.\<close>
  "merge_group current_group =
     (case current_group of
        [w] \<Rightarrow> Inr w
      | _ \<Rightarrow>
        (case words_of current_group of
           Inl e \<Rightarrow> Inl e
         | Inr ws \<Rightarrow>
           (case current_group of
              [] \<Rightarrow> Inl IndexError
            | first # _ \<Rightarrow>
              (case getitem (d_start first) ''start'' of
                 Inl e \<Rightarrow> Inl e
               | Inr s \<Rightarrow>
                 (case getitem (d_end (last current_group)) ''end'' of
                    Inl e \<Rightarrow> Inl e
                  | Inr e \<Rightarrow> Inr (timed (join '' '' ws) s e))))))"

fun merge_loop ::
  "rat \<Rightarrow> word_data list \<Rightarrow> word_data list \<Rightarrow> word_data list \<Rightarrow> py_error + word_data list" where
  "merge_loop overlap_threshold merged_timestamps current_group [] =
     (case merge_group current_group of
        Inl e \<Rightarrow> Inl e
      | Inr m \<Rightarrow> Inr (merged_timestamps @ [m]))"
| "merge_loop overlap_threshold merged_timestamps current_group (word_data # rest) =
     (case current_group of
        [] \<Rightarrow> Inl IndexError
      | _ # _ \<Rightarrow>
        (case getitem (d_end (last current_group)) ''end'' of
           Inl e \<Rightarrow> Inl e
         | Inr last_end \<Rightarrow>
           (case getitem (d_start word_data) ''start'' of
              Inl e \<Rightarrow> Inl e
            | Inr current_start \<Rightarrow>
                if current_start - last_end \<le> overlap_threshold
                then merge_loop overlap_threshold merged_timestamps
                       (current_group @ [word_data]) rest
                else (case merge_group current_group of
                        Inl e \<Rightarrow> Inl e
                      | Inr m \<Rightarrow>
                          merge_loop overlap_threshold (merged_timestamps @ [m])
                            [word_data] rest))))"

definition merge_overlapping_timestamps :: "word_data list \<Rightarrow> rat \<Rightarrow> py_error + word_data list" where
  "merge_overlapping_timestamps word_timestamps overlap_threshold =
     (case word_timestamps of
        [] \<Rightarrow> Inr []
      | first # rest \<Rightarrow> merge_loop overlap_threshold [] [first] rest)"

definition single_word :: "word_data \<Rightarrow> bool" where
  \<comment> \<open>a timed unit whose word is one word: not empty, no whitespace\<close>
  "single_word wd = (has_all_keys wd \<and> word_of wd \<noteq> [] \<and> list_all (\<lambda>c. \<not> isspace c) (word_of wd))"

definition gap_exceeds :: "rat \<Rightarrow> word_data \<Rightarrow> word_data \<Rightarrow> bool" where
  \<comment> \<open>the gap between two adjacent entries is above the threshold\<close>
  "gap_exceeds overlap_threshold a b =
     (has_all_keys a \<and> has_all_keys b \<and> overlap_threshold < start_of b - end_of a)"

section \<open>Embedding lyrics into the MP3 file\<close>

subsection \<open>Strings and paths\<close>

definition lower_char :: "char \<Rightarrow> char" where
  \<comment> \<open>\<open>str.lower\<close> on one code point below 256\<close>
  "lower_char c =
     (let n = of_char c :: nat
      in if (65 \<le> n \<and> n \<le> 90) \<or> (192 \<le> n \<and> n \<le> 222 \<and> n \<noteq> 215)
         then char_of (n + 32) else c)"

definition lower :: "string \<Rightarrow> string" where
  "lower s = map lower_char s"

definition endswith :: "string \<Rightarrow> string \<Rightarrow> bool" where
  "endswith s suffix = (length suffix \<le> length s \<and> drop (length s - length suffix) s = suffix)"

definition basename :: "string \<Rightarrow> string" where
  \<comment> \<open>\<open>os.path.basename\<close>: what follows the last slash\<close>
  "basename p = rev (takeWhile (\<lambda>c. c \<noteq> CHR ''/'') (rev p))"

definition path_join :: "string \<Rightarrow> string \<Rightarrow> string" where
  \<comment> \<open>\<open>os.path.join(a, b)\<close> (POSIX): an absolute \<open>b\<close> replaces \<open>a\<close>\<close>
  "path_join a b =
     (if b \<noteq> [] \<and> hd b = CHR ''/'' then b
      else if a = [] \<or> last a = CHR ''/'' then a @ b
      else a @ ''/'' @ b)"

definition str_bool :: "bool \<Rightarrow> string" where
  "str_bool b = (if b then ''True'' else ''False'')"

definition digit_char :: "nat \<Rightarrow> char" where
  "digit_char n = char_of (48 + n)"

function str_nat :: "nat \<Rightarrow> string" where
  \<comment> \<open>the decimal notation of a length\<close>
  "str_nat n = (if n < 10 then [digit_char n] else str_nat (n div 10) @ [digit_char (n mod 10)])"
  by pat_completeness auto
termination
  by (relation "measure id") auto

declare str_nat.simps [simp del]

subsection \<open>Exceptions, files and the tag container\<close>

datatype exn =
    CalledProcessError string string  \<comment> \<open>message and captured standard error\<close>
  | Exception string                  \<comment> \<open>any other exception, with its message\<close>

fun exn_str :: "exn \<Rightarrow> string" where
  \<comment> \<open>\<open>str(e)\<close>\<close>
  "exn_str (CalledProcessError msg err) = msg"
| "exn_str (Exception msg) = msg"

datatype encoding = LATIN1 | UTF16 | UTF16BE | UTF8

datatype frame =
    SYLT encoding string nat nat string "(string \<times> int) list"
      \<comment> \<open>encoding, lang, format, type, desc, text\<close>
  | USLT encoding string string string
      \<comment> \<open>encoding, lang, desc, text\<close>
  | OtherFrame string string
      \<comment> \<open>a frame of another kind: its frame id and the rest of its hash key\<close>

fun frame_id :: "frame \<Rightarrow> string" where
  "frame_id (SYLT enc lang fmt typ desc text) = ''SYLT''"
| "frame_id (USLT enc lang desc text) = ''USLT''"
| "frame_id (OtherFrame fid rest) = fid"

fun hash_key :: "frame \<Rightarrow> string \<times> string" where
  \<comment> \<open>the key under which the container stores the frame: the frame id and a qualifier\<close>
  "hash_key (SYLT enc lang fmt typ desc text) = (''SYLT'', desc @ '':'' @ lang)"
| "hash_key (USLT enc lang desc text) = (''USLT'', desc @ '':'' @ lang)"
| "hash_key (OtherFrame fid rest) = (fid, rest)"

text \<open>
  Modelled from the spec: the tag container is the third-party library \<open>mutagen\<close>, which
  is not part of the repository. Section 4.6 of the specification gives its contract: it
  holds the frames of a file, \<open>delall\<close> removes every frame of a frame type, \<open>add\<close> stores
  a frame (in place of one with the same key), \<open>getall\<close> lists the frames of a type. The
  container is a list of frames.
\<close>

definition delall :: "string \<Rightarrow> frame list \<Rightarrow> frame list" where
  "delall key tags = filter (\<lambda>f. frame_id f \<noteq> key) tags"

definition add :: "frame \<Rightarrow> frame list \<Rightarrow> frame list" where
  "add f tags = filter (\<lambda>g. hash_key g \<noteq> hash_key f) tags @ [f]"

definition getall :: "string \<Rightarrow> frame list \<Rightarrow> frame list" where
  "getall key tags = filter (\<lambda>f. frame_id f = key) tags"

record file_data =
  content :: string
  id3 :: "frame list option"  \<comment> \<open>\<open>None\<close>: the file has no ID3 tag\<close>

type_synonym filesystem = "string \<Rightarrow> file_data option"

text \<open>
  What the world outside the program does is a parameter: the file ffmpeg writes (or the
  exception of the subprocess call), and for each library call that touches a file or
  builds a frame, the exception it raises, if any.
\<close>

record env =
  ffmpeg_result :: "exn + file_data"
  copy2_raises :: "exn option"
  load_raises :: "exn option"
  sylt_raises :: "exn option"
  uslt_raises :: "exn option"
  save_raises :: "exn option"

record embedder =
  temp_dir :: string
  ffmpeg_available :: bool

definition init_embedder :: "bool \<Rightarrow> embedder" where
  \<comment> \<open>\<open>MP3Embedder.__init__\<close>; the argument is the result of \<open>is_ffmpeg_available()\<close>\<close>
  "init_embedder ffmpeg = \<lparr>temp_dir = ''/tmp/audio_sync'', ffmpeg_available = ffmpeg\<rparr>"

record state =
  fs :: filesystem
  log_messages :: "string list"

type_synonym 'a action = "state \<Rightarrow> (exn + 'a) \<times> state"

definition log_and_print :: "string \<Rightarrow> unit action" where
  "log_and_print message s = (Inr (), s\<lparr>log_messages := log_messages s @ [message]\<rparr>)"

definition raise :: "exn \<Rightarrow> 'a action" where
  "raise e s = (Inl e, s)"

definition then_do :: "'a action \<Rightarrow> ('a \<Rightarrow> 'b action) \<Rightarrow> 'b action" where
  \<comment> \<open>one statement after another: an exception of the first skips the second\<close>
  "then_do m f s = (case m s of (Inl e, s') \<Rightarrow> (Inl e, s') | (Inr v, s') \<Rightarrow> f v s')"

definition try_except :: "'a action \<Rightarrow> (exn \<Rightarrow> 'a action) \<Rightarrow> 'a action" where
  \<comment> \<open>\<open>try: body / except ... as e: handler\<close>; a handler re-raises what its clause does not
      catch\<close>
  "try_except body handler s =
     (case body s of (Inl e, s') \<Rightarrow> handler e s' | (Inr v, s') \<Rightarrow> (Inr v, s'))"

definition copy2 :: "env \<Rightarrow> string \<Rightarrow> string \<Rightarrow> unit action" where
  \<comment> \<open>\<open>shutil.copy2(src, dst)\<close>\<close>
  "copy2 e src dst s =
     (case copy2_raises e of
        Some x \<Rightarrow> (Inl x, s)
      | None \<Rightarrow>
        (case fs s src of
           None \<Rightarrow> (Inl (Exception ''No such file or directory''), s)
         | Some f \<Rightarrow> (Inr (), s\<lparr>fs := (fs s)(dst \<mapsto> f)\<rparr>)))"

definition subprocess_run_ffmpeg :: "env \<Rightarrow> string \<Rightarrow> string \<Rightarrow> unit action" where
  \<comment> \<open>\<open>subprocess.run(['ffmpeg', '-i', audio_path, ..., output_path], check=True, ...)\<close>\<close>
  "subprocess_run_ffmpeg e audio_path output_path s =
     (case ffmpeg_result e of
        Inl x \<Rightarrow> (Inl x, s)
      | Inr f \<Rightarrow> (Inr (), s\<lparr>fs := (fs s)(output_path \<mapsto> f)\<rparr>))"

definition mp3_load :: "env \<Rightarrow> string \<Rightarrow> (frame list option) action" where
  \<comment> \<open>\<open>MP3(path)\<close>: the tags of the file, \<open>None\<close> when it has none\<close>
  "mp3_load e path s =
     (case load_raises e of
        Some x \<Rightarrow> (Inl x, s)
      | None \<Rightarrow>
        (case fs s path of
           None \<Rightarrow> (Inl (Exception ''No such file or directory''), s)
         | Some f \<Rightarrow> (Inr (id3 f), s)))"

definition new_frame :: "exn option \<Rightarrow> frame \<Rightarrow> frame action" where
  \<comment> \<open>building a frame, which the library may refuse\<close>
  "new_frame r f s = (case r of Some x \<Rightarrow> (Inl x, s) | None \<Rightarrow> (Inr f, s))"

definition mp3_save :: "env \<Rightarrow> string \<Rightarrow> frame list \<Rightarrow> unit action" where
  \<comment> \<open>\<open>audio_file.save()\<close>: the tags are written to the file\<close>
  "mp3_save e path tags s =
     (case save_raises e of
        Some x \<Rightarrow> (Inl x, s)
      | None \<Rightarrow>
        (case fs s path of
           None \<Rightarrow> (Inl (Exception ''No such file or directory''), s)
         | Some f \<Rightarrow> (Inr (), s\<lparr>fs := (fs s)(path \<mapsto> f\<lparr>id3 := Some tags\<rparr>)\<rparr>)))"

definition result :: "'a \<Rightarrow> 'a action" where
  \<comment> \<open>an expression that raises nothing\<close>
  "result v s = (Inr v, s)"

definition return_with_logs :: "string \<Rightarrow> (string \<times> string list) action" where
  \<comment> \<open>\<open>return output_path, log_messages\<close>\<close>
  "return_with_logs output_path s = (Inr (output_path, log_messages s), s)"

definition squote :: string where
  "squote = [CHR 0x27]"

subsection \<open>\<open>MP3Embedder.embed_sylt_lyrics\<close>\<close>

definition ensure_mp3 :: "env \<Rightarrow> embedder \<Rightarrow> string \<Rightarrow> string \<Rightarrow> unit action" where
  \<comment> \<open>Step 1: ensure the file is in MP3 format\<close>
  "ensure_mp3 e self audio_path output_path =
     (if \<not> endswith (lower audio_path) ''.mp3'' then
        if ffmpeg_available self then
          then_do (log_and_print (squote @ basename audio_path @ squote
                     @ '' is not an MP3. Converting with ffmpeg...'')) (\<lambda>_.
          try_except
            (then_do (subprocess_run_ffmpeg e audio_path output_path) (\<lambda>_.
             log_and_print ''--- ffmpeg conversion successful. ---''))
            (\<lambda>x. case x of
               CalledProcessError msg err \<Rightarrow>
                 then_do (log_and_print ''--- ERROR: ffmpeg conversion failed. ---'') (\<lambda>_.
                 then_do (log_and_print (''--- ffmpeg stderr: '' @ err @ '' ---'')) (\<lambda>_.
                 then_do (log_and_print
                   ''--- Fallback: Copying original file without conversion. ---'') (\<lambda>_.
                 copy2 e audio_path output_path)))
             | Exception msg \<Rightarrow> raise x))
        else
          then_do (log_and_print
            ''--- WARNING: ffmpeg is not available. Cannot convert non-MP3 file. Copying directly. ---'')
            (\<lambda>_. copy2 e audio_path output_path)
      else
        then_do (log_and_print ''--- Audio is already MP3. Copying to temporary location. ---'')
          (\<lambda>_. copy2 e audio_path output_path))"

definition embed_frames :: "env \<Rightarrow> string \<Rightarrow> (string \<times> int) list \<Rightarrow> string \<Rightarrow> unit action" where
  \<comment> \<open>Step 3, the body of the inner \<open>try\<close>: the tags are changed in memory and written
      by \<open>save\<close>\<close>
  "embed_frames e output_path sylt_data text =
     then_do (log_and_print ''--- Loading MP3 file with mutagen... ---'') (\<lambda>_.
     then_do (mp3_load e output_path) (\<lambda>loaded.
     then_do (case loaded of
                None \<Rightarrow>
                  then_do (log_and_print ''--- No ID3 tags found. Creating new ones. ---'')
                    (\<lambda>_. result [])
              | Some t \<Rightarrow> result t) (\<lambda>tags.
     then_do (log_and_print ''--- Creating and adding SYLT frame... ---'') (\<lambda>_.
     then_do (new_frame (sylt_raises e) (SYLT UTF8 ''eng'' 2 1 [] sylt_data)) (\<lambda>sylt_frame.
     then_do (result (add sylt_frame (delall ''SYLT'' tags))) (\<lambda>tags.
     then_do (log_and_print ''--- Creating and adding USLT frame... ---'') (\<lambda>_.
     then_do (new_frame (uslt_raises e) (USLT UTF8 ''eng'' [] text)) (\<lambda>uslt_frame.
     then_do (result (add uslt_frame (delall ''USLT'' tags))) (\<lambda>tags.
     then_do (mp3_save e output_path tags) (\<lambda>_.
     log_and_print ''--- Successfully embedded SYLT and USLT frames. ---''))))))))))"

definition embed_body ::
  "env \<Rightarrow> embedder \<Rightarrow> string \<Rightarrow> word_data list \<Rightarrow> string \<Rightarrow> string
     \<Rightarrow> (string \<times> string list) action" where
  "embed_body e self audio_path word_timestamps text output_filename =
     then_do (log_and_print (''--- MP3Embedder initialized. ffmpeg available: ''
                @ str_bool (ffmpeg_available self) @ '' ---'')) (\<lambda>_.
     then_do (log_and_print (''--- Starting SYLT embedding for: ''
                @ basename audio_path @ '' ---'')) (\<lambda>_.
     then_do (result (path_join (temp_dir self) output_filename)) (\<lambda>output_path.
     try_except
       (then_do (ensure_mp3 e self audio_path output_path) (\<lambda>_.
        then_do (log_and_print ''--- Creating SYLT data from timestamps... ---'') (\<lambda>_.
        then_do (result (create_sylt_data word_timestamps)) (\<lambda>sylt_data.
        if sylt_data = [] then
          then_do (log_and_print
            ''--- WARNING: No SYLT data could be created. Skipping embedding. ---'') (\<lambda>_.
          return_with_logs output_path)
        else
          then_do (log_and_print (''--- Created '' @ str_nat (length sylt_data)
                     @ '' SYLT entries. ---'')) (\<lambda>_.
          then_do (try_except (embed_frames e output_path sylt_data text)
                     (\<lambda>x. log_and_print (''--- ERROR: Failed to embed SYLT/USLT: ''
                            @ exn_str x @ '' ---''))) (\<lambda>_.
          return_with_logs output_path))))))
       (\<lambda>x. then_do (log_and_print (''--- ERROR: Unexpected error in embed_sylt_lyrics: ''
                       @ exn_str x @ '' ---'')) (\<lambda>_.
             return_with_logs output_path)))))"

definition embed_sylt_lyrics ::
  "env \<Rightarrow> embedder \<Rightarrow> string \<Rightarrow> word_data list \<Rightarrow> string \<Rightarrow> string \<Rightarrow> filesystem
     \<Rightarrow> (exn + string \<times> string list) \<times> filesystem" where
  \<comment> \<open>The call on a file system: what it returns or raises, and the file system it leaves.\<close>
  "embed_sylt_lyrics e self audio_path word_timestamps text output_filename files =
     (case embed_body e self audio_path word_timestamps text output_filename
             \<lparr>fs = files, log_messages = []\<rparr> of
        (r, s) \<Rightarrow> (r, fs s))"

text \<open>Names for the stages of a call, used to state what it does.\<close>

definition after_logs :: "embedder \<Rightarrow> string \<Rightarrow> state \<Rightarrow> state" where
  \<comment> \<open>the state after the two messages logged before the \<open>try\<close>\<close>
  "after_logs self audio_path s =
     s\<lparr>log_messages := log_messages s @
        [''--- MP3Embedder initialized. ffmpeg available: ''
           @ str_bool (ffmpeg_available self) @ '' ---'',
         ''--- Starting SYLT embedding for: '' @ basename audio_path @ '' ---'']\<rparr>"

definition before_frames :: "word_data list \<Rightarrow> state \<Rightarrow> state" where
  \<comment> \<open>the state after the two messages of step 2, when there is SYLT data\<close>
  "before_frames word_timestamps s =
     s\<lparr>log_messages := log_messages s @
        [''--- Creating SYLT data from timestamps... ---'',
         ''--- Created '' @ str_nat (length (create_sylt_data word_timestamps))
            @ '' SYLT entries. ---'']\<rparr>"

definition step1 :: "env \<Rightarrow> embedder \<Rightarrow> string \<Rightarrow> string \<Rightarrow> filesystem \<Rightarrow> (exn + unit) \<times> state" where
  \<comment> \<open>step 1 of a call on a file system: its outcome and the state it leaves\<close>
  "step1 e self audio_path output_filename files =
     ensure_mp3 e self audio_path (path_join (temp_dir self) output_filename)
       (after_logs self audio_path \<lparr>fs = files, log_messages = []\<rparr>)"



definition new_tags :: "frame list option \<Rightarrow> (string \<times> int) list \<Rightarrow> string \<Rightarrow> frame list" where
  \<comment> \<open>the tags step 3 saves, from the tags it loaded\<close>
  "new_tags loaded sylt_data text =
     add (USLT UTF8 ''eng'' [] text)
       (delall ''USLT''
          (add (SYLT UTF8 ''eng'' 2 1 [] sylt_data)
             (delall ''SYLT'' (case loaded of None \<Rightarrow> [] | Some t \<Rightarrow> t))))"

definition success_message :: string where
  "success_message = ''--- Successfully embedded SYLT and USLT frames. ---''"

definition no_failures :: env where
  \<comment> \<open>a world in which no library call raises (ffmpeg is not installed)\<close>
  "no_failures =
     \<lparr>ffmpeg_result = Inl (Exception ''ffmpeg: not found''), copy2_raises = None,
      load_raises = None, sylt_raises = None, uslt_raises = None, save_raises = None\<rparr>"



definition one_file :: "string \<Rightarrow> file_data \<Rightarrow> filesystem" where
  \<comment> \<open>a file system with one file\<close>
  "one_file path f = (\<lambda>p. if p = path then Some f else None)"

subsection \<open>\<open>MP3Embedder.verify_sylt_embedding\<close>\<close>

record verification =
  has_sylt :: bool
  has_uslt :: bool
  sylt_entries :: nat
  error :: "string option"

fun frame_text :: "frame \<Rightarrow> (string \<times> int) list" where
  "frame_text (SYLT enc lang fmt typ desc text) = text"
| "frame_text (USLT enc lang desc text) = []"
| "frame_text (OtherFrame fid rest) = []"

definition verify_sylt_embedding :: "env \<Rightarrow> filesystem \<Rightarrow> string \<Rightarrow> verification" where
  "verify_sylt_embedding e files mp3_path =
     (case mp3_load e mp3_path \<lparr>fs = files, log_messages = []\<rparr> of
        (Inl x, _) \<Rightarrow>
          \<lparr>has_sylt = False, has_uslt = False, sylt_entries = 0, error = Some (exn_str x)\<rparr>
      | (Inr tags, _) \<Rightarrow>
          (let res = \<lparr>has_sylt = False, has_uslt = False, sylt_entries = 0, error = None\<rparr>
           in case tags of
                None \<Rightarrow> res
              | Some t \<Rightarrow>
                  if t = [] then res
                  else
                    (let res = (case getall ''SYLT'' t of
                                     [] \<Rightarrow> res
                                   | f # _ \<Rightarrow> res\<lparr>has_sylt := True,
                                                  sylt_entries := length (frame_text f)\<rparr>);
                         res = (case getall ''USLT'' t of
                                     [] \<Rightarrow> res
                                   | f # _ \<Rightarrow> res\<lparr>has_uslt := True\<rparr>)
                     in res)))"

text \<open>Two files for concrete runs: one with lyrics frames already, one without tags.\<close>

definition tagged_song :: file_data where
  "tagged_song =
     \<lparr>content = ''audio'',
      id3 = Some [SYLT UTF16 ''fra'' 2 1 ''old'' [(''vieux'', 0)],
                  USLT LATIN1 ''eng'' [] ''old lyrics'',
                  OtherFrame ''TIT2'' [],
                  USLT UTF8 ''deu'' [] ''alt'']\<rparr>"

definition untagged_song :: file_data where
  "untagged_song = \<lparr>content = ''audio'', id3 = None\<rparr>"

section \<open>Properties of the primitives\<close>

subsection \<open>Rounding\<close>

lemma rhe_bounds: "of_int (round_half_even y) \<le> y + 1/2 \<and> y - 1/2 \<le> of_int (round_half_even y)"
  unfolding round_half_even_def Let_def by (auto; linarith)
lemma rhe_floor_le: "\<lfloor>y\<rfloor> \<le> round_half_even y" "round_half_even y \<le> \<lfloor>y\<rfloor> + 1"
  unfolding round_half_even_def Let_def by auto
lemma rhe_of_int [simp]: "round_half_even (of_int n) = n"
  unfolding round_half_even_def Let_def by simp
lemma rhe_mono: assumes "y \<le> z" shows "round_half_even y \<le> round_half_even z"
proof (cases "\<lfloor>y\<rfloor> = \<lfloor>z\<rfloor>")
  case True
  then show ?thesis using assms unfolding round_half_even_def Let_def by auto
next
  case False
  with assms have "\<lfloor>y\<rfloor> < \<lfloor>z\<rfloor>" using floor_mono[OF assms] by linarith
  then have "\<lfloor>y\<rfloor> + 1 \<le> \<lfloor>z\<rfloor>" by simp
  with rhe_floor_le(2)[of y] rhe_floor_le(1)[of z] show ?thesis by linarith
qed
lemma round3_mono: "x \<le> y \<Longrightarrow> round3 x \<le> round3 y"
  unfolding round3_def by (simp add: rhe_mono divide_right_mono)
lemma round3_zero [simp]: "round3 0 = 0"
  unfolding round3_def using rhe_of_int[of 0] by simp
lemma round3_bounds: "round3 x \<le> x + 1/2000 \<and> x - 1/2000 \<le> round3 x"
  using rhe_bounds[of "x * 1000"] unfolding round3_def by (simp add: field_simps)

subsection \<open>Whitespace: strip, split and join\<close>

lemma dropWhile_self: "(xs \<noteq> [] \<Longrightarrow> \<not> P (hd xs)) \<Longrightarrow> dropWhile P xs = xs"
  by (cases xs) auto

lemma strip_no_space: "\<forall>c\<in>set w. \<not> isspace c \<Longrightarrow> strip w = w"
proof -
  assume a: "\<forall>c\<in>set w. \<not> isspace c"
  have 1: "dropWhile isspace w = w" using a by (intro dropWhile_self) auto
  have 2: "dropWhile isspace (rev w) = rev w"
  proof (rule dropWhile_self)
    assume "rev w \<noteq> []"
    then have "hd (rev w) \<in> set (rev w)" by (rule hd_in_set)
    then show "\<not> isspace (hd (rev w))" using a by simp
  qed
  show ?thesis unfolding strip_def by (simp add: 1 2)
qed



lemma split_loop_tokens:
  "\<forall>c\<in>set cur. \<not> isspace c \<Longrightarrow> w \<in> set (split_loop cur s) \<Longrightarrow> w \<noteq> [] \<and> (\<forall>c\<in>set w. \<not> isspace c)"
proof (induction s arbitrary: cur)
  case Nil
  then show ?case by (cases "cur = []") simp_all
next
  case (Cons c cs)
  show ?case
  proof (cases "isspace c")
    case True
    have e: "\<forall>c\<in>set ([]::string). \<not> isspace c" by simp
    show ?thesis
    proof (cases "cur = []")
      case True
      with \<open>isspace c\<close> Cons.prems(2) have "w \<in> set (split_loop [] cs)" by simp
      then show ?thesis using Cons.IH[OF e] by blast
    next
      case False
      with \<open>isspace c\<close> Cons.prems(2) have "w = cur \<or> w \<in> set (split_loop [] cs)" by simp
      then show ?thesis using Cons.IH[OF e] False Cons.prems(1) by blast
    qed
  next
    case False
    then have "\<forall>x\<in>set (cur @ [c]). \<not> isspace x" using Cons.prems(1) by simp
    moreover have "w \<in> set (split_loop (cur @ [c]) cs)" using False Cons.prems(2) by simp
    ultimately show ?thesis using Cons.IH by blast
  qed
qed

lemma split_ws_tokens: "w \<in> set (split_ws s) \<Longrightarrow> w \<noteq> [] \<and> (\<forall>c\<in>set w. \<not> isspace c)"
  using split_loop_tokens[of "[]" w s] unfolding split_ws_def by simp

lemma split_loop_word: "\<forall>c\<in>set w. \<not> isspace c \<Longrightarrow> split_loop cur (w @ rest) = split_loop (cur @ w) rest"
proof (induction w arbitrary: cur)
  case Nil then show ?case by simp
next
  case (Cons a w)
  then have "split_loop (cur @ [a]) (w @ rest) = split_loop ((cur @ [a]) @ w) rest" by simp
  then show ?case using Cons.prems by simp
qed

lemma split_ws_word: "w \<noteq> [] \<Longrightarrow> \<forall>c\<in>set w. \<not> isspace c \<Longrightarrow> split_ws w = [w]"
  using split_loop_word[of w "[]" "[]"] unfolding split_ws_def by simp

lemma isspace_space: "isspace CHR '' ''"
  by (simp add: isspace_def)

lemma split_ws_join:
  "\<forall>w\<in>set ws. w \<noteq> [] \<and> (\<forall>c\<in>set w. \<not> isspace c) \<Longrightarrow> split_ws (join '' '' ws) = ws"
proof (induction "'' ''" ws rule: join.induct)
  case 1 then show ?case by (simp add: split_ws_def)
next
  case (2 w) then show ?case by (simp add: split_ws_word)
next
  case (3 w v ws)
  have "split_loop [] (w @ '' '' @ join '' '' (v # ws)) = split_loop w ('' '' @ join '' '' (v # ws))"
    using split_loop_word[of w "[]"] 3 by simp
  also have "\<dots> = w # split_loop [] (join '' '' (v # ws))" using 3 by (simp add: isspace_space)
  finally show ?case using 3 by (simp add: split_ws_def)
qed

lemma split_loop_append_space:
  "split_loop cur (a @ CHR '' '' # b) = split_loop cur a @ split_loop [] b"
proof (induction a arbitrary: cur)
  case Nil
  then show ?case by (simp add: isspace_space)
next
  case (Cons c a)
  show ?case
  proof (cases "isspace c")
    case True
    then show ?thesis using Cons[of "[]"] by simp
  next
    case False
    then show ?thesis using Cons[of "cur @ [c]"] by simp
  qed
qed

lemma split_ws_join_concat: "split_ws (join '' '' ws) = concat (map split_ws ws)"
proof (induction "'' ''" ws rule: join.induct)
  case 1
  then show ?case by (simp add: split_ws_def)
next
  case (2 w)
  then show ?case by simp
next
  case (3 w v ws)
  have "split_ws (w @ '' '' @ join '' '' (v # ws)) = split_ws w @ split_ws (join '' '' (v # ws))"
    unfolding split_ws_def using split_loop_append_space[of "[]" w] by simp
  then show ?case using 3 by simp
qed

section \<open>Properties of the timestamp functions\<close>

subsection \<open>\<open>validate_timestamps\<close> as a filter and a map\<close>

lemma timed_simps [simp]:
  "d_word (timed w s e) = Some w" "d_start (timed w s e) = Some s" "d_end (timed w s e) = Some e"
  "word_of (timed w s e) = w" "start_of (timed w s e) = s" "end_of (timed w s e) = e"
  "has_all_keys (timed w s e)"
  by (simp_all add: timed_def word_of_def start_of_def end_of_def has_all_keys_def get_def)

lemma timed_eq_iff [simp]: "timed w s e = timed w' s' e' \<longleftrightarrow> w = w' \<and> s = s' \<and> e = e'"
  by (auto simp: timed_def)

lemma get_Some [simp]: "get (Some x) y = x" and get_None [simp]: "get None y = y"
  by (simp_all add: get_def)









subsection \<open>What every cleaned entry satisfies\<close>




section \<open>The claims about \<open>validate_timestamps\<close>\<close>




subsection \<open>A second pass of \<open>validate_timestamps\<close>\<close>









section \<open>The claims about \<open>_create_sylt_data\<close> and \<open>get_word_timestamps\<close>\<close>





text \<open>
  C3, as amended. For the transcription \<open>Hello world\<close> (the words \<open>Hello\<close>, \<open>world\<close>) and
  the duration 3.0 the usable duration is 2.0 and each word has 1.0: the code yields the
  two units \<open>[0.5, 1.5]\<close> and \<open>[1.55, 2.5]\<close>, and \<open>_create_sylt_data\<close> yields the entries
  \<open>(Hello, 500)\<close>, \<open>(world, 1550)\<close>. (The claim has \<open>[0.5, 2.0]\<close>, \<open>[2.05, 3.0]\<close> and
  \<open>(world, 2050)\<close>.)
\<close>

theorem hello_world_scenario:
  "split_ws ''Hello world'' = [''Hello'', ''world'']
   \<and> get_word_timestamps True (Some ''Hello world'') 3
       = [timed ''Hello'' (1 / 2) (3 / 2), timed ''world'' (31 / 20) (5 / 2)]
   \<and> allocate [''Hello'', ''world''] 3
       = [timed ''Hello'' (1 / 2) (3 / 2), timed ''world'' (31 / 20) (5 / 2)]
   \<and> create_sylt_data (allocate [''Hello'', ''world''] 3)
       = [(''Hello'', 500), (''world'', 1550)]"
  by code_simp

theorem hello_world_scenario_counterexample:
  "length (allocate [''Hello'', ''world''] 3) = 2
   \<and> map end_of (allocate [''Hello'', ''world''] 3) = [3 / 2, 5 / 2]
   \<and> \<not> \<bar>3 / 2 - 2 :: rat\<bar> \<le> 1 / 1000
   \<and> map start_of (allocate [''Hello'', ''world''] 3) = [1 / 2, 31 / 20]
   \<and> \<not> \<bar>31 / 20 - 41 / 20 :: rat\<bar> \<le> 1 / 1000
   \<and> create_sylt_data (allocate [''Hello'', ''world''] 3)
       \<noteq> [(''Hello'', 500), (''world'', 2050)]"
proof -
  have a: "allocate [''Hello'', ''world''] 3
       = [timed ''Hello'' (1 / 2) (3 / 2), timed ''world'' (31 / 20) (5 / 2)]" by code_simp
  have c: "create_sylt_data [timed ''Hello'' (1 / 2) (3 / 2), timed ''world'' (31 / 20) (5 / 2)]
       = [(''Hello'', 500), (''world'', 1550)]" by code_simp
  show ?thesis unfolding a c by simp
qed

subsection \<open>The loop of \<open>get_word_timestamps\<close>\<close>

lemma word_timing_start_mono:
  assumes "1 < d" "i \<le> j"
  shows "start_of (word_timing d n i w) \<le> start_of (word_timing d n j w')"
proof -
  define q where "q = (d - 1 / 2 - 1 / 2) / of_nat n"
  have q: "0 \<le> q" using assms(1) by (simp add: q_def)
  have "(of_nat i :: rat) \<le> of_nat j" using assms(2) by simp
  then have m: "of_nat i * q \<le> of_nat j * q"
    using q by (rule mult_right_mono)
  have z: "0 \<le> of_nat j * q" using q by (intro mult_nonneg_nonneg) simp_all
  have s: "start_of (word_timing d n k v) =
      round3 ((if n = 1 then 1 / 2 else 1 / 2 + of_nat k * q) + (if 0 < k then 1 / 20 else 0))"
    for k v unfolding word_timing_def Let_def q_def by simp
  have "(if n = 1 then 1 / 2 else 1 / 2 + of_nat i * q) + (if 0 < i then 1 / 20 else 0)
      \<le> (if n = 1 then 1 / 2 else 1 / 2 + of_nat j * q) + (if 0 < j then 1 / 20 else 0)"
    using m z assms(2) by (cases "n = 1"; cases "0 < i"; cases "0 < j") simp_all
  then show ?thesis unfolding s by (rule round3_mono)
qed

lemma word_timing_end_le:
  assumes "1 < d" "i < n"
  shows "end_of (word_timing d n i w) \<le> d"
proof -
  define x where "x = (if n = 1 then d - 1 / 2 else 1 / 2 + (of_nat i + 1) * ((d - 1 / 2 - 1 / 2) / of_nat n))"
  have n: "(0::rat) < of_nat n" using assms(2) by simp
  have "Suc i \<le> n" using assms(2) by simp
  then have "(of_nat (Suc i) :: rat) \<le> of_nat n" by (simp only: of_nat_le_iff)
  then have "(of_nat i + 1 :: rat) \<le> of_nat n" by simp
  then have "(of_nat i + 1) * (d - 1) \<le> of_nat n * (d - 1)"
    using assms(1) by (intro mult_right_mono) simp_all
  then have "(of_nat i + 1) * (d - 1) / of_nat n \<le> d - 1"
    using n by (simp add: pos_divide_le_eq mult.commute)
  then have "1 / 2 + (of_nat i + 1) * ((d - 1 / 2 - 1 / 2) / of_nat n) \<le> d - 1 / 2" by simp
  then have x: "x \<le> d - 1 / 2" by (simp add: x_def)
  have e: "end_of (word_timing d n i w) = round3 x"
    unfolding word_timing_def Let_def x_def by simp
  have "round3 x \<le> x + 1 / 2000" using round3_bounds[of x] by simp
  then show ?thesis unfolding e using x by linarith
qed

lemma allocate_loop_length [simp]: "length (allocate_loop d n i ws) = length ws"
  by (induction ws arbitrary: i) simp_all

lemma allocate_loop_set:
  "u \<in> set (allocate_loop d n j ws) \<Longrightarrow> \<exists>k w. j \<le> k \<and> k < j + length ws \<and> u = word_timing d n k w"
proof (induction ws arbitrary: j)
  case Nil
  then show ?case by simp
next
  case (Cons a ws)
  from Cons.prems have "u = word_timing d n j a \<or> u \<in> set (allocate_loop d n (Suc j) ws)" by simp
  then show ?case
  proof
    assume "u = word_timing d n j a"
    then show ?thesis by (intro exI[of _ j] exI[of _ a]) simp
  next
    assume "u \<in> set (allocate_loop d n (Suc j) ws)"
    from Cons.IH[OF this] obtain k w where "Suc j \<le> k" "k < Suc j + length ws" "u = word_timing d n k w"
      by blast
    then show ?thesis by (intro exI[of _ k] exI[of _ w]) simp
  qed
qed

lemma allocate_loop_sorted:
  assumes "1 < d"
  shows "sorted (map start_of (allocate_loop d n j ws))"
proof (induction ws arbitrary: j)
  case Nil
  then show ?case by simp
next
  case (Cons a ws)
  have "start_of (word_timing d n j a) \<le> start_of u" if "u \<in> set (allocate_loop d n (Suc j) ws)" for u
  proof -
    from allocate_loop_set[OF that] obtain k w where "Suc j \<le> k" "u = word_timing d n k w" by blast
    then show ?thesis using word_timing_start_mono[OF assms, of j k n a w] by simp
  qed
  then show ?case using Cons.IH[of "Suc j"] by auto
qed

lemma word_timing_keys [simp]: "has_all_keys (word_timing d n i w)"
  unfolding word_timing_def Let_def by (simp split: prod.splits)

lemma allocate_properties:
  assumes "1 < d"
  shows "length (allocate words d) = length words"
    and "sorted (map start_of (allocate words d))"
    and "u \<in> set (allocate words d) \<Longrightarrow> has_all_keys u \<and> end_of u \<le> d"
proof -
  show "length (allocate words d) = length words" by (simp add: allocate_def)
  show "sorted (map start_of (allocate words d))"
    unfolding allocate_def using assms by (rule allocate_loop_sorted)
  assume "u \<in> set (allocate words d)"
  then obtain k w where "k < length words" "u = word_timing d (length words) k w"
    unfolding allocate_def using allocate_loop_set[of u d "length words" 0 words] by auto
  then show "has_all_keys u \<and> end_of u \<le> d"
    using word_timing_end_le[OF assms, of k "length words" w] by simp
qed

lemma split_ws_nonempty_words: "filter (\<lambda>w. strip w \<noteq> []) (split_ws t) = split_ws t"
proof -
  have "strip w \<noteq> []" if "w \<in> set (split_ws t)" for w
    using split_ws_tokens[OF that] strip_no_space[of w] by simp
  then show ?thesis by (simp add: filter_id_conv)
qed

text \<open>
  C4. The words of \<open>get_word_timestamps\<close> are those of \<open>transcription.split()\<close>, none of
  which is empty. For a transcription with at least one word and a duration above 1.0, the
  function returns the allocation of those words: one entry per (non-empty) word, the
  start values in non-decreasing order, every entry with its three keys and an end value,
  rounded to milliseconds, of at most the duration.
\<close>

theorem get_word_timestamps_allocation:
  assumes "split_ws t \<noteq> []" and "1 < d"
  shows "get_word_timestamps True (Some t) d = allocate (split_ws t) d
         \<and> length (get_word_timestamps True (Some t) d)
             = length (filter (\<lambda>w. strip w \<noteq> []) (split_ws t))
         \<and> sorted (map start_of (get_word_timestamps True (Some t) d))
         \<and> (\<forall>u\<in>set (get_word_timestamps True (Some t) d). has_all_keys u \<and> end_of u \<le> d)"
proof -
  have "t \<noteq> []" using assms(1) by (auto simp: split_ws_def)
  then have g: "get_word_timestamps True (Some t) d = allocate (split_ws t) d"
    using assms by (simp add: get_word_timestamps_def)
  show ?thesis unfolding g split_ws_nonempty_words
    using allocate_properties[OF assms(2), where words = "split_ws t"] by blast
qed

theorem get_word_timestamps_allocation_witness:
  "get_word_timestamps True (Some ''one  two three '') 4
     = [timed ''one'' (1 / 2) (3 / 2), timed ''two'' (31 / 20) (5 / 2), timed ''three'' (51 / 20) (7 / 2)]
   \<and> length (get_word_timestamps True (Some ''one  two three '') 4) = 3
   \<and> sorted (map start_of (get_word_timestamps True (Some ''one  two three '') 4))
   \<and> list_all (\<lambda>u. has_all_keys u \<and> end_of u \<le> 4)
        (get_word_timestamps True (Some ''one  two three '') 4)"
proof -
  have s: "split_ws ''one  two three '' = [''one'', ''two'', ''three'']" by code_simp
  have f: "filter (\<lambda>w. strip w \<noteq> []) [''one'', ''two'', ''three''] = [''one'', ''two'', ''three'']"
    by code_simp
  have a: "allocate [''one'', ''two'', ''three''] 4
     = [timed ''one'' (1 / 2) (3 / 2), timed ''two'' (31 / 20) (5 / 2), timed ''three'' (51 / 20) (7 / 2)]"
    by code_simp
  from get_word_timestamps_allocation[of "''one  two three ''" 4]
  show ?thesis unfolding s f a by (simp add: list_all_iff)
qed

section \<open>The claim about \<open>merge_overlapping_timestamps\<close>\<close>

lemma has_all_keys_timed: "has_all_keys u \<Longrightarrow> u = timed (word_of u) (start_of u) (end_of u)"
  by (auto simp: has_all_keys_def timed_def word_of_def start_of_def end_of_def)

lemma getitem_keys:
  "has_all_keys u \<Longrightarrow> getitem (d_word u) k = Inr (word_of u)"
  "has_all_keys u \<Longrightarrow> getitem (d_start u) k = Inr (start_of u)"
  "has_all_keys u \<Longrightarrow> getitem (d_end u) k = Inr (end_of u)"
  by (auto simp: has_all_keys_def getitem_def word_of_def start_of_def end_of_def)

lemma words_of_keys: "\<forall>u\<in>set g. has_all_keys u \<Longrightarrow> words_of g = Inr (map word_of g)"
  by (induction g) (simp_all add: getitem_keys)

lemma merge_group_single:
  assumes "g \<noteq> []" "\<forall>u\<in>set g. single_word u"
  shows "\<exists>m. merge_group g = Inr m \<and> has_all_keys m \<and> start_of m = start_of (hd g)
           \<and> end_of m = end_of (last g) \<and> split_ws (word_of m) = map word_of g"
proof (cases g)
  case Nil
  then show ?thesis using assms by simp
next
  case (Cons a rest)
  have k: "\<forall>u\<in>set g. has_all_keys u" using assms(2) by (simp add: single_word_def)
  have t: "\<forall>w\<in>set (map word_of g). w \<noteq> [] \<and> (\<forall>c\<in>set w. \<not> isspace c)"
    using assms(2) by (auto simp: single_word_def list_all_iff)
  show ?thesis
  proof (cases rest)
    case Nil
    then have "merge_group g = Inr a" using Cons by (simp add: merge_group_def)
    moreover have "split_ws (word_of a) = [word_of a]"
      using t Cons by (intro split_ws_word) auto
    ultimately show ?thesis using Cons Nil k by simp
  next
    case (Cons b rest')
    have g: "g = a # b # rest'" using Cons \<open>g = a # rest\<close> by simp
    have w: "words_of (a # b # rest') = Inr (map word_of (a # b # rest'))"
      using k unfolding g by (rule words_of_keys)
    have s: "getitem (d_start a) ''start'' = Inr (start_of a)"
      using k g by (intro getitem_keys) simp
    have "last g \<in> set g" using assms(1) by (rule last_in_set)
    then have "has_all_keys (last g)" using k by blast
    then have e: "getitem (d_end (last (a # b # rest'))) ''end'' = Inr (end_of (last (a # b # rest')))"
      unfolding g by (rule getitem_keys)
    have "merge_group (a # b # rest')
        = Inr (timed (join '' '' (map word_of (a # b # rest'))) (start_of a)
                 (end_of (last (a # b # rest'))))"
      unfolding merge_group_def by (simp add: w s e del: last.simps words_of.simps list.map join.simps)
    then have "merge_group g = Inr (timed (join '' '' (map word_of g)) (start_of a) (end_of (last g)))"
      unfolding g .
    moreover have "split_ws (join '' '' (map word_of g)) = map word_of g"
      using t by (rule split_ws_join)
    ultimately show ?thesis using \<open>g = a # rest\<close> by simp
  qed
qed

lemma merge_loop_step:
  assumes "cur \<noteq> []" "has_all_keys (last cur)" "has_all_keys wd"
  shows "merge_loop th merged cur (wd # rest) =
           (if start_of wd - end_of (last cur) \<le> th
            then merge_loop th merged (cur @ [wd]) rest
            else (case merge_group cur of
                    Inl e \<Rightarrow> Inl e
                  | Inr m \<Rightarrow> merge_loop th (merged @ [m]) [wd] rest))"
proof -
  obtain c cs where cur: "cur = c # cs" using assms(1) by (cases cur) auto
  have e: "getitem (d_end (last (c # cs))) ''end'' = Inr (end_of (last (c # cs)))"
    using assms(2) unfolding cur by (rule getitem_keys)
  have s: "getitem (d_start wd) ''start'' = Inr (start_of wd)"
    using assms(3) by (rule getitem_keys)
  show ?thesis unfolding cur by (simp add: e s del: last.simps)
qed

lemma merge_loop_single:
  assumes "cur \<noteq> []" "\<forall>u\<in>set cur. single_word u" "\<forall>u\<in>set rest. single_word u"
  shows "\<exists>ys. merge_loop th merged cur rest = Inr (merged @ ys) \<and> ys \<noteq> []
           \<and> has_all_keys (hd ys) \<and> start_of (hd ys) = start_of (hd cur)
           \<and> concat (map (\<lambda>u. split_ws (word_of u)) ys) = map word_of (cur @ rest)
           \<and> successively (gap_exceeds th) ys"
  using assms
proof (induction rest arbitrary: merged cur)
  case Nil
  from merge_group_single[OF Nil(1,2)] obtain m where m: "merge_group cur = Inr m"
    "has_all_keys m" "start_of m = start_of (hd cur)" "split_ws (word_of m) = map word_of cur"
    by blast
  show ?case by (intro exI[of _ "[m]"]) (simp add: m)
next
  case (Cons wd rest)
  obtain c cs where cur: "cur = c # cs" using Cons.prems(1) by (cases cur) auto
  have "last cur \<in> set cur" using Cons.prems(1) by (rule last_in_set)
  then have kl: "has_all_keys (last cur)" using Cons.prems(2) by (auto simp: single_word_def)
  have kw: "has_all_keys wd" "single_word wd" using Cons.prems(3) by (simp_all add: single_word_def)
  have rest: "\<forall>u\<in>set rest. single_word u" using Cons.prems(3) by simp
  show ?case
  proof (cases "start_of wd - end_of (last cur) \<le> th")
    case True
    have step: "merge_loop th merged cur (wd # rest) = merge_loop th merged (cur @ [wd]) rest"
      using True by (simp only: merge_loop_step[OF Cons.prems(1) kl kw(1)] if_True)
    have "\<forall>u\<in>set (cur @ [wd]). single_word u" using Cons.prems(2) kw by simp
    from Cons.IH[OF _ this rest, of merged] obtain ys where
      "merge_loop th merged (cur @ [wd]) rest = Inr (merged @ ys)" "ys \<noteq> []"
      "has_all_keys (hd ys)" "start_of (hd ys) = start_of (hd (cur @ [wd]))"
      "concat (map (\<lambda>u. split_ws (word_of u)) ys) = map word_of ((cur @ [wd]) @ rest)"
      "successively (gap_exceeds th) ys" by auto
    then show ?thesis unfolding step by (intro exI[of _ ys]) (simp add: cur)
  next
    case False
    from merge_group_single[OF Cons.prems(1,2)] obtain m where m: "merge_group cur = Inr m"
      "has_all_keys m" "start_of m = start_of (hd cur)" "end_of m = end_of (last cur)"
      "split_ws (word_of m) = map word_of cur"
      by blast
    have step: "merge_loop th merged cur (wd # rest) = merge_loop th (merged @ [m]) [wd] rest"
      using False by (simp only: merge_loop_step[OF Cons.prems(1) kl kw(1)] if_False m(1) sum.case)
    have "\<forall>u\<in>set [wd]. single_word u" using kw by simp
    from Cons.IH[OF _ this rest, of "merged @ [m]"] obtain ys where ys:
      "merge_loop th (merged @ [m]) [wd] rest = Inr ((merged @ [m]) @ ys)" "ys \<noteq> []"
      "has_all_keys (hd ys)" "start_of (hd ys) = start_of (hd [wd])"
      "concat (map (\<lambda>u. split_ws (word_of u)) ys) = map word_of ([wd] @ rest)"
      "successively (gap_exceeds th) ys" by auto
    obtain y ys' where y: "ys = y # ys'" using ys(2) by (cases ys) auto
    have "gap_exceeds th m y" using False ys(3,4) m(2,4) y by (simp add: gap_exceeds_def)
    then have "successively (gap_exceeds th) (m # ys)" using ys(6) y by simp
    then show ?thesis unfolding step using ys(1,5) m
      by (intro exI[of _ "m # ys"]) simp
  qed
qed


text \<open>
  C6. On timed units whose words are single words (all three keys, a word that is not
  empty and holds no whitespace), \<open>merge_overlapping_timestamps\<close> raises nothing; the
  word fields of its output, joined by spaces and split on whitespace (or split one by
  one), give back the words of the input, in their order (hence the same multiset of
  words); and every two adjacent entries of the output are more than the threshold apart
  (start of the next minus end of the previous).
\<close>

theorem merge_overlapping_timestamps_words_and_gaps:
  assumes "\<forall>wd\<in>set units. single_word wd"
  shows "\<exists>merged. merge_overlapping_timestamps units overlap_threshold = Inr merged
           \<and> split_ws (join '' '' (map word_of merged)) = map word_of units
           \<and> mset (split_ws (join '' '' (map word_of merged))) = mset (map word_of units)
           \<and> concat (map (\<lambda>u. split_ws (word_of u)) merged) = map word_of units
           \<and> successively (gap_exceeds overlap_threshold) merged"
proof (cases units)
  case Nil
  then show ?thesis by (simp add: merge_overlapping_timestamps_def split_ws_def)
next
  case (Cons first rest)
  have "\<forall>u\<in>set [first]. single_word u" "\<forall>u\<in>set rest. single_word u"
    using assms Cons by simp_all
  from merge_loop_single[OF _ this, of overlap_threshold "[]"] obtain ys where
    "merge_loop overlap_threshold [] [first] rest = Inr ys"
    "concat (map (\<lambda>u. split_ws (word_of u)) ys) = map word_of ([first] @ rest)"
    "successively (gap_exceeds overlap_threshold) ys" by auto
  then show ?thesis using Cons
    by (intro exI[of _ ys])
       (simp add: merge_overlapping_timestamps_def split_ws_join_concat map_concat comp_def)
qed

theorem merge_overlapping_timestamps_words_and_gaps_witness:
  "merge_overlapping_timestamps
      [timed ''a'' 0 1, timed ''b'' (51 / 50) 2, timed ''c'' 3 4] (1 / 20)
     = Inr [timed ''a b'' 0 2, timed ''c'' 3 4]
   \<and> split_ws (join '' '' (map word_of [timed ''a b'' 0 2, timed ''c'' 3 4]))
     = [''a'', ''b'', ''c'']
   \<and> successively (gap_exceeds (1 / 20)) [timed ''a b'' 0 2, timed ''c'' 3 4]"
proof -
  let ?U = "[timed ''a'' 0 1, timed ''b'' (51 / 50) 2, timed ''c'' 3 4]"
  have "\<forall>wd\<in>set ?U. single_word wd" by (simp add: single_word_def isspace_def)
  from merge_overlapping_timestamps_words_and_gaps[OF this, of "1 / 20"] obtain merged where m:
    "merge_overlapping_timestamps ?U (1 / 20) = Inr merged"
    "split_ws (join '' '' (map word_of merged)) = map word_of ?U"
    "successively (gap_exceeds (1 / 20)) merged" by blast
  have c: "merge_overlapping_timestamps ?U (1 / 20) = Inr [timed ''a b'' 0 2, timed ''c'' 3 4]"
    by code_simp
  from m(1) c have "merged = [timed ''a b'' 0 2, timed ''c'' 3 4]" by simp
  with m c show ?thesis by simp
qed

section \<open>Properties of \<open>embed_sylt_lyrics\<close>\<close>

subsection \<open>Sequencing and handlers\<close>

lemma then_do_log [simp]:
  "then_do (log_and_print m) f s = f () (s\<lparr>log_messages := log_messages s @ [m]\<rparr>)"
  by (simp add: then_do_def log_and_print_def)

lemma then_do_result [simp]: "then_do (result v) f s = f v s"
  by (simp add: then_do_def result_def)

lemma then_do_Inl: "m s = (Inl x, s1) \<Longrightarrow> then_do m f s = (Inl x, s1)"
  by (simp add: then_do_def)

lemma then_do_Inr: "m s = (Inr v, s1) \<Longrightarrow> then_do m f s = f v s1"
  by (simp add: then_do_def)

lemma try_except_Inl: "b s = (Inl x, s1) \<Longrightarrow> try_except b h s = h x s1"
  by (simp add: try_except_def)

lemma try_except_Inr: "b s = (Inr v, s1) \<Longrightarrow> try_except b h s = (Inr v, s1)"
  by (simp add: try_except_def)

lemma action_cases:
  obtains (Raises) x s1 where "m s = (Inl x, s1)" | (Returns) v s1 where "m s = (Inr v, s1)"
  by (cases "m s"; cases "fst (m s)") auto

subsection \<open>The call returns in every case\<close>

lemma embed_body_step1_raises:
  assumes "ensure_mp3 e self audio_path (path_join (temp_dir self) output_filename)
             (after_logs self audio_path s) = (Inl x, s1)"
  shows "embed_body e self audio_path word_timestamps text output_filename s =
           (Inr (path_join (temp_dir self) output_filename,
                 log_messages s1 @ [''--- ERROR: Unexpected error in embed_sylt_lyrics: ''
                                      @ exn_str x @ '' ---'']),
            s1\<lparr>log_messages := log_messages s1 @
                 [''--- ERROR: Unexpected error in embed_sylt_lyrics: '' @ exn_str x @ '' ---'']\<rparr>)"
  using assms unfolding embed_body_def after_logs_def
  by (simp add: try_except_Inl[OF then_do_Inl] return_with_logs_def)


lemma embed_body_no_sylt:
  assumes "ensure_mp3 e self audio_path (path_join (temp_dir self) output_filename)
             (after_logs self audio_path s) = (Inr v, s1)"
    and "create_sylt_data word_timestamps = []"
  shows "embed_body e self audio_path word_timestamps text output_filename s =
           (Inr (path_join (temp_dir self) output_filename,
                 log_messages s1 @ [''--- Creating SYLT data from timestamps... ---'',
                   ''--- WARNING: No SYLT data could be created. Skipping embedding. ---'']),
            s1\<lparr>log_messages := log_messages s1 @
                 [''--- Creating SYLT data from timestamps... ---'',
                  ''--- WARNING: No SYLT data could be created. Skipping embedding. ---'']\<rparr>)"
  using assms unfolding embed_body_def after_logs_def
  by (simp add: then_do_Inr return_with_logs_def try_except_Inr)

lemma embed_body_frames_raise:
  assumes "ensure_mp3 e self audio_path (path_join (temp_dir self) output_filename)
             (after_logs self audio_path s) = (Inr v, s1)"
    and "create_sylt_data word_timestamps \<noteq> []"
    and "embed_frames e (path_join (temp_dir self) output_filename)
           (create_sylt_data word_timestamps) text (before_frames word_timestamps s1) = (Inl x, s2)"
  shows "embed_body e self audio_path word_timestamps text output_filename s =
           (Inr (path_join (temp_dir self) output_filename,
                 log_messages s2 @ [''--- ERROR: Failed to embed SYLT/USLT: '' @ exn_str x @ '' ---'']),
            s2\<lparr>log_messages := log_messages s2 @
                 [''--- ERROR: Failed to embed SYLT/USLT: '' @ exn_str x @ '' ---'']\<rparr>)"
proof -
  let ?p = "path_join (temp_dir self) output_filename"
  let ?sd = "create_sylt_data word_timestamps"
  let ?h = "\<lambda>x. log_and_print (''--- ERROR: Failed to embed SYLT/USLT: '' @ exn_str x @ '' ---'')"
  have "try_except (embed_frames e ?p ?sd text) ?h (before_frames word_timestamps s1)
          = (Inr (), s2\<lparr>log_messages := log_messages s2 @
                 [''--- ERROR: Failed to embed SYLT/USLT: '' @ exn_str x @ '' ---'']\<rparr>)"
    using assms(3) by (simp add: try_except_Inl log_and_print_def)
  then show ?thesis
    using assms(1,2) unfolding embed_body_def after_logs_def
    by (simp add: then_do_Inr return_with_logs_def try_except_Inr before_frames_def)
qed

lemma embed_body_frames_return:
  assumes "ensure_mp3 e self audio_path (path_join (temp_dir self) output_filename)
             (after_logs self audio_path s) = (Inr v, s1)"
    and "create_sylt_data word_timestamps \<noteq> []"
    and "embed_frames e (path_join (temp_dir self) output_filename)
           (create_sylt_data word_timestamps) text (before_frames word_timestamps s1) = (Inr u, s2)"
  shows "embed_body e self audio_path word_timestamps text output_filename s =
           (Inr (path_join (temp_dir self) output_filename, log_messages s2), s2)"
proof -
  let ?p = "path_join (temp_dir self) output_filename"
  let ?sd = "create_sylt_data word_timestamps"
  let ?h = "\<lambda>x. log_and_print (''--- ERROR: Failed to embed SYLT/USLT: '' @ exn_str x @ '' ---'')"
  have "try_except (embed_frames e ?p ?sd text) ?h (before_frames word_timestamps s1)
          = (Inr u, s2)"
    using assms(3) by (simp add: try_except_Inr)
  then show ?thesis
    using assms(1,2) unfolding embed_body_def after_logs_def
    by (simp add: then_do_Inr return_with_logs_def try_except_Inr before_frames_def)
qed


subsection \<open>The tag container\<close>

lemma frame_id_hash_key: "fst (hash_key f) = frame_id f"
  by (cases f) simp_all

lemma getall_delall_same [simp]: "getall k (delall k t) = []"
  by (induction t) (simp_all add: getall_def delall_def)

lemma getall_delall_other: "k \<noteq> k' \<Longrightarrow> getall k (delall k' t) = getall k t"
  by (induction t) (auto simp: getall_def delall_def)

lemma getall_add_other: "frame_id f \<noteq> k \<Longrightarrow> getall k (add f t) = getall k t"
proof -
  assume a: "frame_id f \<noteq> k"
  have "hash_key g \<noteq> hash_key f" if "frame_id g = k" for g
    using that a frame_id_hash_key[of g] frame_id_hash_key[of f] by auto
  then have "filter (\<lambda>g. frame_id g = k) (filter (\<lambda>g. hash_key g \<noteq> hash_key f) t)
               = filter (\<lambda>g. frame_id g = k) t"
    by (induction t) auto
  then show ?thesis using a by (simp add: getall_def add_def)
qed

lemma getall_add_same: "getall (frame_id f) t = [] \<Longrightarrow> getall (frame_id f) (add f t) = [f]"
proof -
  assume "getall (frame_id f) t = []"
  then have "filter (\<lambda>g. frame_id g = frame_id f) (filter (\<lambda>g. hash_key g \<noteq> hash_key f) t) = []"
    by (induction t) (auto simp: getall_def split: if_splits)
  then show ?thesis by (simp add: getall_def add_def)
qed

lemma new_tags_frames:
  "getall ''SYLT'' (new_tags loaded sylt_data text) = [SYLT UTF8 ''eng'' 2 1 [] sylt_data]"
  "getall ''USLT'' (new_tags loaded sylt_data text) = [USLT UTF8 ''eng'' [] text]"
  "k \<noteq> ''SYLT'' \<Longrightarrow> k \<noteq> ''USLT'' \<Longrightarrow>
     getall k (new_tags loaded sylt_data text) = getall k (case loaded of None \<Rightarrow> [] | Some t \<Rightarrow> t)"
proof -
  let ?s = "SYLT UTF8 ''eng'' 2 1 [] sylt_data" and ?u = "USLT UTF8 ''eng'' [] text"
  let ?t = "case loaded of None \<Rightarrow> [] | Some t \<Rightarrow> t"
  have s: "frame_id ?s = ''SYLT''" and u: "frame_id ?u = ''USLT''" by simp_all
  have "getall ''SYLT'' (add ?s (delall ''SYLT'' ?t)) = [?s]"
    using getall_add_same[of ?s "delall ''SYLT'' ?t"] by simp
  then show "getall ''SYLT'' (new_tags loaded sylt_data text) = [?s]"
    unfolding new_tags_def by (simp add: getall_add_other getall_delall_other)
  show "getall ''USLT'' (new_tags loaded sylt_data text) = [?u]"
    unfolding new_tags_def using getall_add_same[of ?u] by simp
  assume "k \<noteq> ''SYLT''" "k \<noteq> ''USLT''"
  then show "getall k (new_tags loaded sylt_data text) = getall k ?t"
    unfolding new_tags_def by (simp add: getall_add_other getall_delall_other)
qed


subsection \<open>Step 3\<close>

lemma then_do_mp3_load:
  "then_do (mp3_load e path) f s =
     (case load_raises e of
        Some x \<Rightarrow> (Inl x, s)
      | None \<Rightarrow>
        (case fs s path of
           None \<Rightarrow> (Inl (Exception ''No such file or directory''), s)
         | Some fl \<Rightarrow> f (id3 fl) s))"
  by (simp add: then_do_def mp3_load_def split: option.splits)

lemma then_do_new_frame:
  "then_do (new_frame r fr) f s = (case r of Some x \<Rightarrow> (Inl x, s) | None \<Rightarrow> f fr s)"
  by (simp add: then_do_def new_frame_def split: option.splits)

lemma then_do_mp3_save:
  "then_do (mp3_save e path tags) f s =
     (case save_raises e of
        Some x \<Rightarrow> (Inl x, s)
      | None \<Rightarrow>
        (case fs s path of
           None \<Rightarrow> (Inl (Exception ''No such file or directory''), s)
         | Some fl \<Rightarrow> f () (s\<lparr>fs := (fs s)(path \<mapsto> fl\<lparr>id3 := Some tags\<rparr>)\<rparr>)))"
  by (simp add: then_do_def mp3_save_def split: option.splits)

lemma then_do_option_case:
  "then_do (case v of None \<Rightarrow> a | Some t \<Rightarrow> b t) f s =
     (case v of None \<Rightarrow> then_do a f s | Some t \<Rightarrow> then_do (b t) f s)"
  by (cases v) simp_all

lemma then_do_assoc: "then_do (then_do m f) g s = then_do m (\<lambda>v. then_do (f v) g) s"
  by (simp add: then_do_def split: prod.splits sum.splits)

lemmas embed_frames_unfold =
  embed_frames_def then_do_mp3_load then_do_new_frame then_do_mp3_save then_do_option_case
  then_do_assoc log_and_print_def

lemma embed_frames_returns:
  assumes "embed_frames e path sylt_data text s = (Inr u, s2)"
  shows "\<exists>fl. fs s path = Some fl
           \<and> fs s2 = (fs s)(path \<mapsto> fl\<lparr>id3 := Some (new_tags (id3 fl) sylt_data text)\<rparr>)
           \<and> log_messages s2 \<noteq> [] \<and> last (log_messages s2) = success_message"
  using assms
  by (auto simp: embed_frames_unfold new_tags_def success_message_def split: option.splits)

lemma embed_frames_raises:
  assumes "embed_frames e path sylt_data text s = (Inl x, s2)"
  shows "fs s2 = fs s \<and> (\<exists>ms. log_messages s2 = log_messages s @ ms \<and> success_message \<notin> set ms)"
  using assms
  by (auto simp: embed_frames_unfold success_message_def split: option.splits)

lemma embed_frames_no_failure:
  assumes "load_raises e = None" "sylt_raises e = None" "uslt_raises e = None"
    "save_raises e = None" "fs s path = Some fl"
  shows "\<exists>s2. embed_frames e path sylt_data text s = (Inr (), s2)"
  using assms
  by (auto simp: embed_frames_unfold split: option.splits)




subsection \<open>Step 1\<close>

lemma copy2_effect:
  assumes "copy2 e src dst s = (r, s1)"
  shows "log_messages s1 = log_messages s" and "r = Inr v \<Longrightarrow> fs s1 dst \<noteq> None"
  using assms by (auto simp: copy2_def split: option.splits)

lemma ensure_mp3_effect:
  assumes "ensure_mp3 e self audio_path output_path s = (r, s1)"
  shows "\<exists>ms. log_messages s1 = log_messages s @ ms \<and> success_message \<notin> set ms"
    and "r = Inr v \<Longrightarrow> fs s1 output_path \<noteq> None"
proof -
  have "(\<exists>ms. log_messages s1 = log_messages s @ ms \<and> success_message \<notin> set ms)
        \<and> (r = Inr v \<longrightarrow> fs s1 output_path \<noteq> None)"
  proof (cases "endswith (lower audio_path) ''.mp3''")
    case True
    let ?s = "s\<lparr>log_messages := log_messages s
                 @ [''--- Audio is already MP3. Copying to temporary location. ---'']\<rparr>"
    have "copy2 e audio_path output_path ?s = (r, s1)"
      using assms True by (simp add: ensure_mp3_def)
    from copy2_effect[OF this] show ?thesis by (simp add: success_message_def)
  next
    case False
    show ?thesis
    proof (cases "ffmpeg_available self")
      case nf: False
      let ?s = "s\<lparr>log_messages := log_messages s
          @ [''--- WARNING: ffmpeg is not available. Cannot convert non-MP3 file. Copying directly. ---'']\<rparr>"
      have "copy2 e audio_path output_path ?s = (r, s1)"
        using assms False nf by (simp add: ensure_mp3_def)
      from copy2_effect[OF this] show ?thesis by (simp add: success_message_def)
    next
      case True
      let ?m = "squote @ basename audio_path @ squote @ '' is not an MP3. Converting with ffmpeg...''"
      let ?s = "s\<lparr>log_messages := log_messages s @ [?m]\<rparr>"
      have m: "?m \<noteq> success_message" by (simp add: squote_def success_message_def)
      let ?b = "then_do (subprocess_run_ffmpeg e audio_path output_path)
                  (\<lambda>_. log_and_print ''--- ffmpeg conversion successful. ---'')"
      let ?h = "\<lambda>x. case x of
               CalledProcessError msg err \<Rightarrow>
                 then_do (log_and_print ''--- ERROR: ffmpeg conversion failed. ---'') (\<lambda>_.
                 then_do (log_and_print (''--- ffmpeg stderr: '' @ err @ '' ---'')) (\<lambda>_.
                 then_do (log_and_print
                   ''--- Fallback: Copying original file without conversion. ---'') (\<lambda>_.
                 copy2 e audio_path output_path)))
             | Exception msg \<Rightarrow> raise x"
      have t: "try_except ?b ?h ?s = (r, s1)"
        using assms False True by (simp add: ensure_mp3_def)
      show ?thesis
      proof (cases "ffmpeg_result e")
        case (Inr f)
        have "subprocess_run_ffmpeg e audio_path output_path ?s
                = (Inr (), ?s\<lparr>fs := (fs ?s)(output_path \<mapsto> f)\<rparr>)"
          using Inr by (simp add: subprocess_run_ffmpeg_def)
        then have "?b ?s = (Inr (), ?s\<lparr>fs := (fs ?s)(output_path \<mapsto> f),
             log_messages := log_messages ?s @ [''--- ffmpeg conversion successful. ---'']\<rparr>)"
          by (simp add: then_do_Inr log_and_print_def)
        from try_except_Inr[of ?b ?s _ _ ?h, OF this] t
        have "r = Inr ()" and "s1 = ?s\<lparr>fs := (fs ?s)(output_path \<mapsto> f),
             log_messages := log_messages ?s @ [''--- ffmpeg conversion successful. ---'']\<rparr>"
          by simp_all
        then show ?thesis using m by (simp add: success_message_def)
      next
        case (Inl x)
        have "subprocess_run_ffmpeg e audio_path output_path ?s = (Inl x, ?s)"
          using Inl by (simp add: subprocess_run_ffmpeg_def)
        then have "?b ?s = (Inl x, ?s)"
          by (rule then_do_Inl[of "subprocess_run_ffmpeg e audio_path output_path" ?s])
        from try_except_Inl[of ?b ?s _ _ ?h, OF this] t have h: "?h x ?s = (r, s1)" by simp
        show ?thesis
        proof (cases x)
          case (Exception msg)
          then have "r = Inl x" "s1 = ?s" using h by (simp_all add: raise_def)
          then show ?thesis using m by simp
        next
          case (CalledProcessError msg err)
          let ?s3 = "s\<lparr>log_messages := log_messages s @ [?m,
                       ''--- ERROR: ffmpeg conversion failed. ---'',
                       ''--- ffmpeg stderr: '' @ err @ '' ---'',
                       ''--- Fallback: Copying original file without conversion. ---'']\<rparr>"
          have "copy2 e audio_path output_path ?s3 = (r, s1)"
            using h CalledProcessError by simp
          from copy2_effect[OF this] show ?thesis using m by (simp add: success_message_def)
        qed
      qed
    qed
  qed
  then show "\<exists>ms. log_messages s1 = log_messages s @ ms \<and> success_message \<notin> set ms"
    and "r = Inr v \<Longrightarrow> fs s1 output_path \<noteq> None" by simp_all
qed






subsection \<open>The four outcomes of a call\<close>

lemma embed_sylt_lyrics_cases:
  "embed_sylt_lyrics e self audio_path word_timestamps text output_filename files =
     (case step1 e self audio_path output_filename files of
        (Inl x, s1) \<Rightarrow>
          (Inr (path_join (temp_dir self) output_filename,
                log_messages s1 @ [''--- ERROR: Unexpected error in embed_sylt_lyrics: ''
                                     @ exn_str x @ '' ---'']), fs s1)
      | (Inr v, s1) \<Rightarrow>
          if create_sylt_data word_timestamps = [] then
            (Inr (path_join (temp_dir self) output_filename,
                  log_messages s1 @ [''--- Creating SYLT data from timestamps... ---'',
                    ''--- WARNING: No SYLT data could be created. Skipping embedding. ---'']),
             fs s1)
          else
            (case embed_frames e (path_join (temp_dir self) output_filename)
                    (create_sylt_data word_timestamps) text (before_frames word_timestamps s1) of
               (Inl x, s2) \<Rightarrow>
                 (Inr (path_join (temp_dir self) output_filename,
                       log_messages s2 @ [''--- ERROR: Failed to embed SYLT/USLT: ''
                                            @ exn_str x @ '' ---'']), fs s2)
             | (Inr u, s2) \<Rightarrow>
                 (Inr (path_join (temp_dir self) output_filename, log_messages s2), fs s2)))"
proof -
  let ?s0 = "\<lparr>fs = files, log_messages = []\<rparr>"
  let ?p = "path_join (temp_dir self) output_filename"
  let ?sd = "create_sylt_data word_timestamps"
  show ?thesis
  proof (cases rule: action_cases[of "ensure_mp3 e self audio_path ?p" "after_logs self audio_path ?s0"])
    case (Raises x s1)
    from embed_body_step1_raises[OF Raises, of word_timestamps "text"] Raises
    show ?thesis by (simp add: embed_sylt_lyrics_def step1_def)
  next
    case (Returns v s1)
    show ?thesis
    proof (cases "?sd = []")
      case True
      from embed_body_no_sylt[OF Returns True, of "text"] Returns True
      show ?thesis by (simp add: embed_sylt_lyrics_def step1_def)
    next
      case False
      show ?thesis
      proof (cases rule: action_cases[of "embed_frames e ?p ?sd text" "before_frames word_timestamps s1"])
        case r2: (Raises x s2)
        from embed_body_frames_raise[OF Returns False r2] Returns False r2
        show ?thesis by (simp add: embed_sylt_lyrics_def step1_def)
      next
        case r2: (Returns u s2)
        from embed_body_frames_return[OF Returns False r2] Returns False r2
        show ?thesis by (simp add: embed_sylt_lyrics_def step1_def)
      qed
    qed
  qed
qed

lemma step1_effect:
  assumes "step1 e self audio_path output_filename files = (r, s1)"
  shows "success_message \<notin> set (log_messages s1)"
    and "r = Inr v \<Longrightarrow> fs s1 (path_join (temp_dir self) output_filename) \<noteq> None"
proof -
  let ?s = "after_logs self audio_path \<lparr>fs = files, log_messages = []\<rparr>"
  have a: "ensure_mp3 e self audio_path (path_join (temp_dir self) output_filename) ?s = (r, s1)"
    using assms by (simp add: step1_def)
  from ensure_mp3_effect(1)[OF a] obtain ms where
    "log_messages s1 = log_messages ?s @ ms" "success_message \<notin> set ms" by blast
  then show "success_message \<notin> set (log_messages s1)"
    by (simp add: after_logs_def success_message_def)
  show "r = Inr v \<Longrightarrow> fs s1 (path_join (temp_dir self) output_filename) \<noteq> None"
    using ensure_mp3_effect(2)[OF a] by simp
qed


section \<open>The claims about \<open>embed_sylt_lyrics\<close>\<close>




lemma embed_sylt_lyrics_success:
  assumes "embed_sylt_lyrics e self audio_path word_timestamps text output_filename files
             = (Inr (p, logs), files')"
    and "success_message \<in> set logs"
  obtains v s1 s2 where
    "step1 e self audio_path output_filename files = (Inr v, s1)"
    "create_sylt_data word_timestamps \<noteq> []"
    "embed_frames e (path_join (temp_dir self) output_filename)
       (create_sylt_data word_timestamps) text (before_frames word_timestamps s1) = (Inr (), s2)"
    "p = path_join (temp_dir self) output_filename" "files' = fs s2"
proof (cases rule: action_cases[of "step1 e self audio_path output_filename" files])
  case (Raises x s1)
  from step1_effect(1)[OF this] assms Raises have False
    by (auto simp: embed_sylt_lyrics_cases success_message_def)
  then show ?thesis ..
next
  case (Returns v s1)
  note n = step1_effect(1)[OF Returns]
  show ?thesis
  proof (cases "create_sylt_data word_timestamps = []")
    case True
    with n assms Returns have False
      by (auto simp: embed_sylt_lyrics_cases success_message_def)
    then show ?thesis ..
  next
    case False
    show ?thesis
    proof (cases rule: action_cases[of "embed_frames e (path_join (temp_dir self) output_filename)
                      (create_sylt_data word_timestamps) text" "before_frames word_timestamps s1"])
      case r2: (Raises x s2)
      from embed_frames_raises[OF r2] obtain ms where
        "log_messages s2 = log_messages (before_frames word_timestamps s1) @ ms"
        "success_message \<notin> set ms" by blast
      with n have "success_message \<notin> set (log_messages s2)"
        by (simp add: before_frames_def success_message_def)
      with assms Returns False r2 have False
        by (auto simp: embed_sylt_lyrics_cases success_message_def)
      then show ?thesis ..
    next
      case r2: (Returns u s2)
      with assms(1) Returns False show ?thesis
        by (intro that[of v s1 s2]) (simp_all add: embed_sylt_lyrics_cases)
    qed
  qed
qed

text \<open>
  C8. A call is successful when its log holds the success message. After a successful
  call the output file has tags, with exactly one SYLT frame (the new one, made from the
  word timestamps) and exactly one USLT frame (the new one, with the text), whatever
  frames the file had after step 1: the saved tags are those loaded, with every SYLT
  frame deleted before the new one is added and every USLT frame deleted before the new
  one is added; frames of other kinds are kept.
\<close>

theorem embed_sylt_lyrics_one_frame_each:
  assumes "embed_sylt_lyrics e self audio_path word_timestamps text output_filename files
             = (Inr (p, logs), files')"
    and "success_message \<in> set logs"
  shows "\<exists>fl prior tags.
           files' p = Some fl \<and> id3 fl = Some tags
           \<and> tags = add (USLT UTF8 ''eng'' [] text) (delall ''USLT''
                      (add (SYLT UTF8 ''eng'' 2 1 [] (create_sylt_data word_timestamps))
                         (delall ''SYLT'' prior)))
           \<and> getall ''SYLT'' tags = [SYLT UTF8 ''eng'' 2 1 [] (create_sylt_data word_timestamps)]
           \<and> getall ''USLT'' tags = [USLT UTF8 ''eng'' [] text]
           \<and> length (getall ''SYLT'' tags) = 1 \<and> length (getall ''USLT'' tags) = 1
           \<and> filter (\<lambda>f. frame_id f \<noteq> ''SYLT'' \<and> frame_id f \<noteq> ''USLT'') tags
               = filter (\<lambda>f. frame_id f \<noteq> ''SYLT'' \<and> frame_id f \<noteq> ''USLT'') prior"
proof -
  from assms obtain v s1 s2 where
    f: "embed_frames e (path_join (temp_dir self) output_filename)
       (create_sylt_data word_timestamps) text (before_frames word_timestamps s1) = (Inr (), s2)"
    and p: "p = path_join (temp_dir self) output_filename" and fi: "files' = fs s2"
    by (rule embed_sylt_lyrics_success)
  from embed_frames_returns[OF f] obtain fl where
    fl: "fs s2 = (fs (before_frames word_timestamps s1))
            (p \<mapsto> fl\<lparr>id3 := Some (new_tags (id3 fl) (create_sylt_data word_timestamps) text)\<rparr>)"
    unfolding p by blast
  let ?prior = "case id3 fl of None \<Rightarrow> [] | Some t \<Rightarrow> t"
  let ?tags = "new_tags (id3 fl) (create_sylt_data word_timestamps) text"
  have o: "filter (\<lambda>f. frame_id f \<noteq> ''SYLT'' \<and> frame_id f \<noteq> ''USLT'') ?tags
               = filter (\<lambda>f. frame_id f \<noteq> ''SYLT'' \<and> frame_id f \<noteq> ''USLT'') ?prior"
    unfolding new_tags_def add_def delall_def
    by (induction ?prior) (auto intro!: filter_cong dest: arg_cong[where f = fst] simp: frame_id_hash_key)
  show ?thesis
    by (intro exI[of _ "fl\<lparr>id3 := Some ?tags\<rparr>"] exI[of _ ?prior] exI[of _ ?tags])
       (simp add: fi fl new_tags_frames o, simp add: new_tags_def)
qed

theorem embed_sylt_lyrics_one_frame_each_witness:
  "\<exists>fl tags.
      snd (embed_sylt_lyrics no_failures (init_embedder False) ''song.mp3''
             [timed ''Hello'' (1 / 2) (3 / 2)] ''Hello'' ''out.mp3''
             (one_file ''song.mp3'' tagged_song)) ''/tmp/audio_sync/out.mp3'' = Some fl
      \<and> id3 fl = Some tags
      \<and> getall ''SYLT'' tags = [SYLT UTF8 ''eng'' 2 1 [] [(''Hello'', 500)]]
      \<and> getall ''USLT'' tags = [USLT UTF8 ''eng'' [] ''Hello'']
      \<and> length (getall ''SYLT'' tags) = 1 \<and> length (getall ''USLT'' tags) = 1"
proof -
  let ?run = "embed_sylt_lyrics no_failures (init_embedder False) ''song.mp3''
             [timed ''Hello'' (1 / 2) (3 / 2)] ''Hello'' ''out.mp3''
             (one_file ''song.mp3'' tagged_song)"
  let ?logs = "[''--- MP3Embedder initialized. ffmpeg available: False ---'',
       ''--- Starting SYLT embedding for: song.mp3 ---'',
       ''--- Audio is already MP3. Copying to temporary location. ---'',
       ''--- Creating SYLT data from timestamps... ---'',
       ''--- Created 1 SYLT entries. ---'',
       ''--- Loading MP3 file with mutagen... ---'',
       ''--- Creating and adding SYLT frame... ---'',
       ''--- Creating and adding USLT frame... ---'',
       ''--- Successfully embedded SYLT and USLT frames. ---'']"
  have "fst ?run = Inr (''/tmp/audio_sync/out.mp3'', ?logs)" by code_simp
  then have r: "?run = (Inr (''/tmp/audio_sync/out.mp3'', ?logs), snd ?run)"
    by (metis prod.collapse)
  have s: "success_message \<in> set ?logs" by (simp add: success_message_def)
  have c: "create_sylt_data [timed ''Hello'' (1 / 2) (3 / 2)] = [(''Hello'', 500)]" by code_simp
  from embed_sylt_lyrics_one_frame_each[OF r s] show ?thesis unfolding c by blast
qed

subsection \<open>Verification\<close>

lemma verify_sylt_embedding_tags:
  assumes "load_raises e = None" "files path = Some fl" "id3 fl = Some tags" "tags \<noteq> []"
  shows "has_sylt (verify_sylt_embedding e files path) = (getall ''SYLT'' tags \<noteq> [])"
    and "has_uslt (verify_sylt_embedding e files path) = (getall ''USLT'' tags \<noteq> [])"
    and "sylt_entries (verify_sylt_embedding e files path)
           = (case getall ''SYLT'' tags of [] \<Rightarrow> 0 | f # _ \<Rightarrow> length (frame_text f))"
  using assms
  by (simp_all add: verify_sylt_embedding_def mp3_load_def Let_def split: list.splits)

lemma verify_sylt_embedding_untagged:
  assumes "load_raises e = None" "files path = Some fl" "id3 fl = None"
  shows "verify_sylt_embedding e files path
           = \<lparr>has_sylt = False, has_uslt = False, sylt_entries = 0, error = None\<rparr>"
  using assms by (simp add: verify_sylt_embedding_def mp3_load_def)

text \<open>
  C1, as amended. The USLT frame is written in step 3, with the SYLT frame, and step 3 is
  not reached when no SYLT data could be created: the call then returns after step 1 and
  leaves the file system as step 1 left it (the output file is the copy, with the tags of
  the source and no new frame). When there is SYLT data, step 1 succeeds and loading,
  building the two frames and saving raise nothing, the output file is saved with the new
  tags, among them exactly one USLT frame with the full text, and verification of the
  output reports \<open>has_uslt\<close>, \<open>has_sylt\<close> and the number of SYLT entries.
\<close>

theorem embed_sylt_lyrics_uslt_needs_sylt:
  "(create_sylt_data word_timestamps = [] \<longrightarrow>
      snd (embed_sylt_lyrics e self audio_path word_timestamps text output_filename files)
        = fs (snd (step1 e self audio_path output_filename files)))
   \<and> (create_sylt_data word_timestamps \<noteq> []
        \<and> fst (step1 e self audio_path output_filename files) = Inr ()
        \<and> load_raises e = None \<and> sylt_raises e = None \<and> uslt_raises e = None
        \<and> save_raises e = None \<longrightarrow>
      (\<exists>fl. fs (snd (step1 e self audio_path output_filename files))
               (path_join (temp_dir self) output_filename) = Some fl
         \<and> snd (embed_sylt_lyrics e self audio_path word_timestamps text output_filename files)
             = (fs (snd (step1 e self audio_path output_filename files)))
                 (path_join (temp_dir self) output_filename \<mapsto>
                    fl\<lparr>id3 := Some (new_tags (id3 fl) (create_sylt_data word_timestamps) text)\<rparr>)
         \<and> getall ''USLT'' (new_tags (id3 fl) (create_sylt_data word_timestamps) text)
             = [USLT UTF8 ''eng'' [] text])
      \<and> has_uslt (verify_sylt_embedding e
           (snd (embed_sylt_lyrics e self audio_path word_timestamps text output_filename files))
           (path_join (temp_dir self) output_filename))
      \<and> has_sylt (verify_sylt_embedding e
           (snd (embed_sylt_lyrics e self audio_path word_timestamps text output_filename files))
           (path_join (temp_dir self) output_filename))
      \<and> sylt_entries (verify_sylt_embedding e
           (snd (embed_sylt_lyrics e self audio_path word_timestamps text output_filename files))
           (path_join (temp_dir self) output_filename))
          = length (create_sylt_data word_timestamps))"
proof (intro conjI impI)
  let ?p = "path_join (temp_dir self) output_filename"
  let ?sd = "create_sylt_data word_timestamps"
  let ?run = "embed_sylt_lyrics e self audio_path word_timestamps text output_filename files"
  let ?st = "step1 e self audio_path output_filename files"
  {
    assume "?sd = []"
    then show "snd ?run = fs (snd ?st)"
      by (cases rule: action_cases[of "step1 e self audio_path output_filename" files])
         (simp_all add: embed_sylt_lyrics_cases)
  }
  assume h: "?sd \<noteq> [] \<and> fst ?st = Inr () \<and> load_raises e = None \<and> sylt_raises e = None
      \<and> uslt_raises e = None \<and> save_raises e = None"
  obtain s1 where st: "?st = (Inr (), s1)" using h by (cases ?st) auto
  from step1_effect(2)[OF st] obtain fl where fl: "fs s1 ?p = Some fl" by auto
  then have "fs (before_frames word_timestamps s1) ?p = Some fl" by (simp add: before_frames_def)
  from embed_frames_no_failure[OF _ _ _ _ this, of e ?sd "text"] h obtain s2 where
    f: "embed_frames e ?p ?sd text (before_frames word_timestamps s1) = (Inr (), s2)" by auto
  from embed_frames_returns[OF f] fl
  have s2: "fs s2 = (fs s1)(?p \<mapsto> fl\<lparr>id3 := Some (new_tags (id3 fl) ?sd text)\<rparr>)"
    by (simp add: before_frames_def)
  have run: "snd ?run = fs s2" using st h f by (simp add: embed_sylt_lyrics_cases)
  let ?tags = "new_tags (id3 fl) ?sd text"
  have u: "getall ''USLT'' ?tags = [USLT UTF8 ''eng'' [] text]"
    and sy: "getall ''SYLT'' ?tags = [SYLT UTF8 ''eng'' 2 1 [] ?sd]"
    by (rule new_tags_frames)+
  show "\<exists>fl. fs (snd ?st) ?p = Some fl
         \<and> snd ?run = (fs (snd ?st))(?p \<mapsto> fl\<lparr>id3 := Some (new_tags (id3 fl) ?sd text)\<rparr>)
         \<and> getall ''USLT'' (new_tags (id3 fl) ?sd text) = [USLT UTF8 ''eng'' [] text]"
    using fl run s2 st u by (intro exI[of _ fl]) simp
  have out: "snd ?run ?p = Some (fl\<lparr>id3 := Some ?tags\<rparr>)" using run s2 by simp
  have ne: "?tags \<noteq> []" using u by (auto simp: getall_def)
  have l: "load_raises e = None" using h by simp
  have i: "id3 (fl\<lparr>id3 := Some ?tags\<rparr>) = Some ?tags" by simp
  note v = verify_sylt_embedding_tags[of e "snd ?run" ?p "fl\<lparr>id3 := Some ?tags\<rparr>" ?tags,
      OF l out i ne]
  show "has_uslt (verify_sylt_embedding e (snd ?run) ?p)" using v(2) u by simp
  show "has_sylt (verify_sylt_embedding e (snd ?run) ?p)" using v(1) sy by simp
  show "sylt_entries (verify_sylt_embedding e (snd ?run) ?p) = length ?sd" using v(3) sy by simp
qed


theorem embed_sylt_lyrics_uslt_needs_sylt_witness:
  "snd (embed_sylt_lyrics no_failures (init_embedder False) ''song.mp3'' [] ''la la''
          ''out.mp3'' (one_file ''song.mp3'' untagged_song)) ''/tmp/audio_sync/out.mp3''
     = Some untagged_song
   \<and> has_uslt (verify_sylt_embedding no_failures
        (snd (embed_sylt_lyrics no_failures (init_embedder False) ''song.mp3''
                [timed ''Hello'' (1 / 2) (3 / 2)] ''Hello'' ''out.mp3''
                (one_file ''song.mp3'' tagged_song)))
        ''/tmp/audio_sync/out.mp3'')
   \<and> sylt_entries (verify_sylt_embedding no_failures
        (snd (embed_sylt_lyrics no_failures (init_embedder False) ''song.mp3''
                [timed ''Hello'' (1 / 2) (3 / 2)] ''Hello'' ''out.mp3''
                (one_file ''song.mp3'' tagged_song)))
        ''/tmp/audio_sync/out.mp3'') = 1"
proof -
  have p: "path_join (temp_dir (init_embedder False)) ''out.mp3'' = ''/tmp/audio_sync/out.mp3''"
    by code_simp
  have "create_sylt_data [] = []" by simp
  with embed_sylt_lyrics_uslt_needs_sylt[of "[]" no_failures "init_embedder False"
      "''song.mp3''" "''la la''" "''out.mp3''" "one_file ''song.mp3'' untagged_song"]
  have "snd (embed_sylt_lyrics no_failures (init_embedder False) ''song.mp3'' [] ''la la''
          ''out.mp3'' (one_file ''song.mp3'' untagged_song))
        = fs (snd (step1 no_failures (init_embedder False) ''song.mp3'' ''out.mp3''
                     (one_file ''song.mp3'' untagged_song)))" by blast
  moreover have "fs (snd (step1 no_failures (init_embedder False) ''song.mp3'' ''out.mp3''
                     (one_file ''song.mp3'' untagged_song))) ''/tmp/audio_sync/out.mp3''
        = Some untagged_song" by code_simp
  ultimately have a: "snd (embed_sylt_lyrics no_failures (init_embedder False) ''song.mp3'' []
          ''la la'' ''out.mp3'' (one_file ''song.mp3'' untagged_song)) ''/tmp/audio_sync/out.mp3''
     = Some untagged_song" by simp
  have c: "create_sylt_data [timed ''Hello'' (1 / 2) (3 / 2)] = [(''Hello'', 500)]" by code_simp
  have s: "fst (step1 no_failures (init_embedder False) ''song.mp3'' ''out.mp3''
                     (one_file ''song.mp3'' tagged_song)) = Inr ()" by code_simp
  have n: "load_raises no_failures = None" "sylt_raises no_failures = None"
    "uslt_raises no_failures = None" "save_raises no_failures = None"
    by (simp_all add: no_failures_def)
  from embed_sylt_lyrics_uslt_needs_sylt[of "[timed ''Hello'' (1 / 2) (3 / 2)]" no_failures
      "init_embedder False" "''song.mp3''" "''Hello''" "''out.mp3''"
      "one_file ''song.mp3'' tagged_song"] s n
  have "has_uslt (verify_sylt_embedding no_failures
        (snd (embed_sylt_lyrics no_failures (init_embedder False) ''song.mp3''
                [timed ''Hello'' (1 / 2) (3 / 2)] ''Hello'' ''out.mp3''
                (one_file ''song.mp3'' tagged_song)))
        ''/tmp/audio_sync/out.mp3'')
   \<and> sylt_entries (verify_sylt_embedding no_failures
        (snd (embed_sylt_lyrics no_failures (init_embedder False) ''song.mp3''
                [timed ''Hello'' (1 / 2) (3 / 2)] ''Hello'' ''out.mp3''
                (one_file ''song.mp3'' tagged_song)))
        ''/tmp/audio_sync/out.mp3'') = 1"
    unfolding c p by simp
  with a show ?thesis by simp
qed

theorem embed_sylt_lyrics_no_uslt_counterexample:
  "''la la'' \<noteq> []
   \<and> get_word_timestamps True (Some []) 10 = []
   \<and> fst (embed_sylt_lyrics no_failures (init_embedder False) ''song.mp3'' [] ''la la''
             ''out.mp3'' (one_file ''song.mp3'' untagged_song))
       = Inr (''/tmp/audio_sync/out.mp3'',
           [''--- MP3Embedder initialized. ffmpeg available: False ---'',
            ''--- Starting SYLT embedding for: song.mp3 ---'',
            ''--- Audio is already MP3. Copying to temporary location. ---'',
            ''--- Creating SYLT data from timestamps... ---'',
            ''--- WARNING: No SYLT data could be created. Skipping embedding. ---''])
   \<and> verify_sylt_embedding no_failures
        (snd (embed_sylt_lyrics no_failures (init_embedder False) ''song.mp3'' [] ''la la''
                ''out.mp3'' (one_file ''song.mp3'' untagged_song)))
        ''/tmp/audio_sync/out.mp3''
       = \<lparr>has_sylt = False, has_uslt = False, sylt_entries = 0, error = None\<rparr>"
  by code_simp

end
